theory Spec2Isabelle
  imports Complex_Main "HOL-Library.Sublist" "HOL-Library.Char_ord" "HOL-Library.List_Lexorder"
    "HOL-Library.Multiset"
begin

section \<open>Strings and numbers of the client\<close>

text \<open>
  The client is TypeScript. A JavaScript string is modelled as a \<^typ>\<open>string\<close> whose
  characters are ASCII code units; a JavaScript number is modelled as the real that the
  double denotes (a value decoded from JSON is never NaN or infinite).
\<close>

type_synonym number = real

text \<open>\<^verbatim>\<open>String.prototype.toLowerCase\<close> on ASCII: the letters A to Z move 32 code units up.\<close>

definition isUpper :: "char \<Rightarrow> bool" where
  "isUpper c = (CHR ''A'' \<le> c \<and> c \<le> CHR ''Z'')"

definition toLowerCaseChar :: "char \<Rightarrow> char" where
  "toLowerCaseChar c = (if isUpper c then char_of (of_char c + (32::nat)) else c)"

definition toLowerCase :: "string \<Rightarrow> string" where
  "toLowerCase s = map toLowerCaseChar s"

text \<open>\<^verbatim>\<open>s.startsWith(t)\<close> and \<^verbatim>\<open>s.includes(t)\<close>: \<open>t\<close> occurs in \<open>s\<close> at position 0, at some position.\<close>

fun startsWith :: "string \<Rightarrow> string \<Rightarrow> bool" where
  "startsWith s [] = True"
| "startsWith [] (y # ys) = False"
| "startsWith (x # xs) (y # ys) = (x = y \<and> startsWith xs ys)"

fun includes_str :: "string \<Rightarrow> string \<Rightarrow> bool" where
  "includes_str [] t = (t = [])"
| "includes_str (x # xs) t = (startsWith (x # xs) t \<or> includes_str xs t)"

text \<open>
  The white space of \<^verbatim>\<open>String.prototype.trim\<close> and of the regular expression class
  \<^verbatim>\<open>\s\<close> (the same set in ECMAScript), within ASCII: tab, line feed, vertical tab, form
  feed, carriage return and space.
\<close>

definition isWhiteSpace :: "char \<Rightarrow> bool" where
  "isWhiteSpace c = (c \<in> set [CHR 0x09, CHR 0x0A, CHR 0x0B, CHR 0x0C, CHR 0x0D, CHR 0x20])"

definition trim :: "string \<Rightarrow> string" where
  "trim s = rev (dropWhile isWhiteSpace (rev (dropWhile isWhiteSpace s)))"

text \<open>The separator class \<^verbatim>\<open>[,\s]\<close> of the regular expression \<^verbatim>\<open>/[,\s]+/\<close>.\<close>

definition isSeparator :: "char \<Rightarrow> bool" where
  "isSeparator c = (c = CHR '','' \<or> isWhiteSpace c)"

text \<open>
  \<^verbatim>\<open>s.split(/[,\s]+/)\<close>: the string is cut at every maximal run of separators. A run at the
  start or at the end of the string leaves an empty string there; the empty string
  splits into one empty string. \<open>acc\<close> is the piece being read, reversed; \<open>inSep\<close> says that
  the previous character was a separator.
\<close>

fun split_go :: "string \<Rightarrow> bool \<Rightarrow> string \<Rightarrow> string list" where
  "split_go acc inSep [] = [rev acc]"
| "split_go acc inSep (c # cs) =
     (if isSeparator c then
        (if inSep then split_go acc True cs else rev acc # split_go [] True cs)
      else split_go (c # acc) False cs)"

definition split_re :: "string \<Rightarrow> string list" where
  "split_re s = split_go [] False s"

section \<open>Recipes\<close>

text \<open>
  \<^verbatim>\<open>interface Recipe\<close> of RecipeCardWithSimilarity.tsx, and \<^verbatim>\<open>interface BackendRecipe\<close>
  of RecipeGridWithBackend.tsx, which has the same fields and \<^verbatim>\<open>nutrition\<close>. An optional
  field is an \<open>option\<close>.
\<close>

record Nutrition =
  calories :: "number option"
  protein :: "number option"
  fat :: "number option"
  carbs :: "number option"

record Recipe =
  rid :: string
  title :: string
  description :: string
  image :: string
  cookTime :: number
  servings :: number
  rating :: number
  category :: string
  difficulty :: string
  ingredients :: "string list"
  instructions :: "string list"
  similarityScore :: "number option"

record BackendRecipe = Recipe +
  nutrition :: Nutrition

text \<open>\<^verbatim>\<open>convertToRecipeCardFormat\<close> copies every field but \<^verbatim>\<open>nutrition\<close>.\<close>

definition convertToRecipeCardFormat :: "BackendRecipe \<Rightarrow> Recipe" where
  "convertToRecipeCardFormat backendRecipe =
     \<lparr> rid = rid backendRecipe,
       title = title backendRecipe,
       description = description backendRecipe,
       image = image backendRecipe,
       cookTime = cookTime backendRecipe,
       servings = servings backendRecipe,
       rating = rating backendRecipe,
       category = category backendRecipe,
       difficulty = difficulty backendRecipe,
       ingredients = ingredients backendRecipe,
       instructions = instructions backendRecipe,
       similarityScore = similarityScore backendRecipe \<rparr>"

section \<open>The category filter\<close>

text \<open>
  \<^verbatim>\<open>filteredRecipes\<close> of RecipeGridWithBackend.tsx (lines 183-190):
  \<^verbatim>\<open>if (selectedCategory === 'All') return recipes;
  return recipes.filter(recipe =>
    recipe.category.toLowerCase().includes(selectedCategory.toLowerCase()));\<close>
  The API-backed RecipeGrid (lines 81-88) has the same body with \<^verbatim>\<open>recipe.category?.\<close>, which
  differs only for a recipe without category, and the type \<^verbatim>\<open>Recipe\<close> has none.
\<close>

definition filteredRecipes :: "('a Recipe_scheme) list \<Rightarrow> string \<Rightarrow> ('a Recipe_scheme) list" where
  "filteredRecipes recipes selectedCategory =
     (if selectedCategory = ''All'' then recipes
      else filter (\<lambda>recipe.
             includes_str (toLowerCase (category recipe)) (toLowerCase selectedCategory))
           recipes)"

text \<open>
  Modelled from the spec: the server's category lookup, which is not among the sources.
  Section 4.6: "exact (case-normalized) match", in the order of the index.
\<close>

definition byCategory :: "('a Recipe_scheme) list \<Rightarrow> string \<Rightarrow> ('a Recipe_scheme) list" where
  "byCategory corpus cat =
     filter (\<lambda>recipe. toLowerCase (category recipe) = toLowerCase cat) corpus"

section \<open>HTTP requests and responses\<close>

datatype HttpMethod = GET | POST

text \<open>The body of a search request: \<^verbatim>\<open>JSON.stringify({ ingredients, top_n })\<close>.\<close>

datatype SearchBody = SearchBody (body_ingredients: "string list") (body_top_n: int)

record Request =
  http_method :: HttpMethod
  url :: string
  body :: "SearchBody option"

text \<open>
  What an awaited \<^verbatim>\<open>fetch\<close> followed by \<^verbatim>\<open>response.json()\<close> gives a handler: a response
  with \<^verbatim>\<open>response.ok\<close> and its decoded body, a response that is not ok, or a rejected
  promise (the \<^verbatim>\<open>catch\<close> branch).
\<close>

datatype 'a Response = Ok 'a | NotOk | Rejected

text \<open>
  \<^verbatim>\<open>encodeURIComponent\<close>: the unreserved characters stay, every other code unit becomes a
  percent sign and two upper-case hexadecimal digits.
\<close>

definition isUnreserved :: "char \<Rightarrow> bool" where
  "isUnreserved c =
     ((CHR ''A'' \<le> c \<and> c \<le> CHR ''Z'') \<or> (CHR ''a'' \<le> c \<and> c \<le> CHR ''z'') \<or>
      (CHR ''0'' \<le> c \<and> c \<le> CHR ''9'') \<or> c \<in> set ''-_.!~*'' \<or> c = CHR 0x27 \<or>
      c \<in> set ''()'')"

definition hexDigit :: "nat \<Rightarrow> char" where
  "hexDigit n = ''0123456789ABCDEF'' ! (n mod 16)"

definition encodeChar :: "char \<Rightarrow> string" where
  "encodeChar c =
     (if isUnreserved c then [c]
      else [CHR ''%'', hexDigit (of_char c div 16), hexDigit (of_char c)])"

definition encodeURIComponent :: "string \<Rightarrow> string" where
  "encodeURIComponent s = concat (map encodeChar s)"

section \<open>RecipeGridWithBackend\<close>

text \<open>
  The component's state: one field for each \<^verbatim>\<open>useState\<close>. Each effect below is a pair: the
  request it sends, and the state it leaves once the response has arrived. Every
  \<^verbatim>\<open>setX(v)\<close> of the source is one record update, in the source's order.
\<close>

record GridState =
  recipes :: "BackendRecipe list"
  categories :: "string list"
  selectedCategory :: string
  selectedRecipe :: "BackendRecipe option"
  isModalOpen :: bool
  loading :: bool
  error :: "string option"
  isSearching :: bool

definition initialState :: GridState where
  "initialState =
     \<lparr> recipes = [], categories = [''All''], selectedCategory = ''All'',
       selectedRecipe = None, isModalOpen = False, loading = False, error = None,
       isSearching = False \<rparr>"

text \<open>\<^verbatim>\<open>loadCategories\<close> (lines 44-58); \<open>base\<close> is \<^verbatim>\<open>API_BASE_URL\<close>, the window's origin.\<close>

definition loadCategories_request :: "string \<Rightarrow> Request" where
  "loadCategories_request base =
     \<lparr> http_method = GET, url = base @ ''/api/recipes/categories'', body = None \<rparr>"

definition loadCategories :: "string list Response \<Rightarrow> GridState \<Rightarrow> GridState" where
  "loadCategories response st =
     (case response of
        Ok categoryData \<Rightarrow> st\<lparr>categories := ''All'' # categoryData\<rparr>
      | NotOk \<Rightarrow> st
      | Rejected \<Rightarrow> st)"

text \<open>\<^verbatim>\<open>loadInitialRecipes\<close> (lines 61-83).\<close>

definition loadInitialRecipes_request :: "string \<Rightarrow> Request" where
  "loadInitialRecipes_request base =
     \<lparr> http_method = GET, url = base @ ''/api/recipes/random?count=50'', body = None \<rparr>"

definition loadInitialRecipes :: "BackendRecipe list Response \<Rightarrow> GridState \<Rightarrow> GridState" where
  "loadInitialRecipes response st =
     (let st1 = st\<lparr>loading := True\<rparr>;
          st2 = st1\<lparr>error := None\<rparr>;
          st3 = (case response of
                   Ok recipeData \<Rightarrow> st2\<lparr>recipes := recipeData\<rparr>
                 | NotOk \<Rightarrow> st2\<lparr>error := Some ''Failed to load recipes''\<rparr>
                 | Rejected \<Rightarrow> st2\<lparr>error := Some ''Failed to load recipes''\<rparr>)
      in st3\<lparr>loading := False\<rparr>)"

text \<open>
  \<^verbatim>\<open>searchRecipes\<close> (lines 86-139). \<^verbatim>\<open>!searchQuery.trim()\<close> holds when the trimmed query is
  the empty string. The ingredients sent are
  \<^verbatim>\<open>searchQuery.split(/[,\s]+/).filter(ing => ing.trim().length > 0)\<close>.
\<close>

definition parseIngredients :: "string \<Rightarrow> string list" where
  "parseIngredients searchQuery =
     filter (\<lambda>ing. length (trim ing) > 0) (split_re searchQuery)"

definition searchRecipes_request :: "string \<Rightarrow> string \<Rightarrow> Request" where
  "searchRecipes_request base searchQuery =
     (if trim searchQuery = [] then
        \<lparr> http_method = GET, url = base @ ''/api/recipes/random?count=50'', body = None \<rparr>
      else
        \<lparr> http_method = POST, url = base @ ''/api/recipes/search'',
          body = Some (SearchBody (parseIngredients searchQuery) 12) \<rparr>)"

definition searchRecipes ::
  "string \<Rightarrow> BackendRecipe list Response \<Rightarrow> GridState \<Rightarrow> GridState" where
  "searchRecipes searchQuery response st =
     (if trim searchQuery = [] then
        (let st1 = st\<lparr>isSearching := True\<rparr>;
             st2 = (case response of
                      Ok recipeData \<Rightarrow> st1\<lparr>recipes := recipeData\<rparr>
                    | NotOk \<Rightarrow> st1
                    | Rejected \<Rightarrow> st1)
         in st2\<lparr>isSearching := False\<rparr>)
      else
        (let st1 = st\<lparr>isSearching := True\<rparr>;
             st2 = st1\<lparr>error := None\<rparr>;
             st3 = (case response of
                      Ok searchResults \<Rightarrow>
                        (let st' = st2\<lparr>recipes := searchResults\<rparr>
                         in if length searchResults = 0 then
                              st'\<lparr>error := Some
                                ''No recipes found for your ingredients. Try different ingredients or check spelling.''\<rparr>
                            else st')
                    | NotOk \<Rightarrow> st2\<lparr>error := Some ''Search failed. Please try again.''\<rparr>
                    | Rejected \<Rightarrow> st2\<lparr>error := Some ''Search failed. Please try again.''\<rparr>)
         in st3\<lparr>isSearching := False\<rparr>))"

text \<open>
  \<^verbatim>\<open>loadRecipes\<close> (lines 147-181): it runs only when the trimmed query is empty, so the
  request is optional. \<^verbatim>\<open>!selectedCategory\<close> holds for the empty string.
\<close>

definition loadRecipes_request :: "string \<Rightarrow> string \<Rightarrow> string \<Rightarrow> Request option" where
  "loadRecipes_request base searchQuery selCategory =
     (if trim searchQuery = [] then
        Some (if selCategory = ''All'' \<or> selCategory = [] then
                \<lparr> http_method = GET, url = base @ ''/api/recipes/random?count=20'', body = None \<rparr>
              else
                \<lparr> http_method = GET,
                  url = base @ ''/api/recipes/by-category/'' @ encodeURIComponent selCategory,
                  body = None \<rparr>)
      else None)"

definition loadRecipes :: "BackendRecipe list Response \<Rightarrow> GridState \<Rightarrow> GridState" where
  "loadRecipes response st =
     (let st1 = st\<lparr>loading := True\<rparr>;
          st2 = st1\<lparr>error := None\<rparr>;
          st3 = (case response of
                   Ok categoryRecipes \<Rightarrow> st2\<lparr>recipes := categoryRecipes\<rparr>
                 | NotOk \<Rightarrow> st2\<lparr>error := Some ''Failed to load recipes''\<rparr>
                 | Rejected \<Rightarrow> st2\<lparr>error := Some ''Failed to load recipes''\<rparr>)
      in st3\<lparr>loading := False\<rparr>)"

text \<open>
  The grid (lines 297-307): one card for each element of \<^verbatim>\<open>filteredRecipes\<close>, in order,
  with the card's recipe and its \<^verbatim>\<open>showSimilarityScore\<close> flag,
  \<^verbatim>\<open>!!searchQuery.trim() && !!recipe.similarityScore\<close>. A number is truthy when it is not 0;
  an absent one is not.
\<close>

definition truthy :: "number option \<Rightarrow> bool" where
  "truthy v = (case v of None \<Rightarrow> False | Some x \<Rightarrow> x \<noteq> 0)"

definition showSimilarityScore :: "string \<Rightarrow> BackendRecipe \<Rightarrow> bool" where
  "showSimilarityScore searchQuery recipe =
     (trim searchQuery \<noteq> [] \<and> truthy (similarityScore recipe))"

definition renderGrid :: "string \<Rightarrow> GridState \<Rightarrow> (Recipe \<times> bool) list" where
  "renderGrid searchQuery st =
     map (\<lambda>recipe. (convertToRecipeCardFormat recipe, showSimilarityScore searchQuery recipe))
       (filteredRecipes (recipes st) (selectedCategory st))"

text \<open>The category buttons (lines 260-272): one for each element of \<^verbatim>\<open>categories\<close>.\<close>

definition categoryButtons_backend :: "GridState \<Rightarrow> string list" where
  "categoryButtons_backend st = categories st"

section \<open>RecipeCardWithSimilarity\<close>

text \<open>
  The arithmetic of the card is on IEEE 754 doubles. A double is the real number it
  denotes; the result of an operation is the exact result rounded to the nearest double,
  a tie going to the double with the even significand. \<open>quantumExponent x\<close> is the
  exponent of the spacing of the doubles around \<open>x\<close>: 52 below the exponent of \<open>x\<close>, and
  \<open>-1074\<close> for the subnormal numbers. \<open>bitLength n\<close> is the number of binary digits of
  \<open>n\<close>. A product of magnitude \<open>2 ^ 1024\<close> or more is an infinity in the source, which
  \<^typ>\<open>number\<close> does not have; scores and percentages are far below.
\<close>

function bitLength :: "int \<Rightarrow> int" where
  "bitLength n = (if n \<le> 0 then 0 else 1 + bitLength (n div 2))"
  by pat_completeness auto
termination
  by (relation "measure nat") auto

declare bitLength.simps [simp del]

definition roundTiesToEven :: "real \<Rightarrow> int" where
  "roundTiesToEven x =
     (let f = \<lfloor>x\<rfloor>; d = x - of_int f in
      if d < 1 / 2 then f
      else if d > 1 / 2 then f + 1
      else if even f then f else f + 1)"

definition quantumExponent :: "real \<Rightarrow> int" where
  "quantumExponent x = max (bitLength \<lfloor>\<bar>x\<bar> * 2 ^ 1074\<rfloor> - 1127) (- 1074)"

definition roundDouble :: "real \<Rightarrow> number" where
  "roundDouble x =
     of_int (roundTiesToEven (x / 2 powi quantumExponent x)) * 2 powi quantumExponent x"

text \<open>
  \<^verbatim>\<open>a * b\<close> on numbers. An operand that is not a double stands for the double nearest to
  it, as the number read from JSON or from a literal does (the literal \<^verbatim>\<open>100\<close> is a double).
  Rounding leaves a double as it is, so that on doubles the result is the rounded exact
  product.
\<close>

definition timesDouble :: "number \<Rightarrow> number \<Rightarrow> number" where
  "timesDouble a b = roundDouble (roundDouble a * roundDouble b)"

text \<open>
  \<^verbatim>\<open>formatSimilarityScore\<close> is \<^verbatim>\<open>Math.round(score * 100)\<close>; \<^verbatim>\<open>Math.round\<close> gives the integer
  nearest to its argument and rounds a half up, which is \<open>\<lfloor>x + 1/2\<rfloor>\<close> on the exact value
  of the double.
\<close>

definition Math_round :: "number \<Rightarrow> int" where
  "Math_round x = \<lfloor>x + 1 / 2\<rfloor>"

definition formatSimilarityScore :: "number \<Rightarrow> int" where
  "formatSimilarityScore score = Math_round (timesDouble score 100)"

definition getSimilarityColor :: "number \<Rightarrow> string" where
  "getSimilarityColor score =
     (let percentage = timesDouble score 100 in
      if percentage \<ge> 80 then ''text-green-400 bg-green-500/20''
      else if percentage \<ge> 60 then ''text-yellow-400 bg-yellow-500/20''
      else if percentage \<ge> 40 then ''text-orange-400 bg-orange-500/20''
      else ''text-red-400 bg-red-500/20'')"

text \<open>
  What the card shows in its top right corner (lines 47-54):
  \<^verbatim>\<open>{showSimilarityScore && recipe.similarityScore && (<div>...% match</div>)}\<close>.
  The expression is \<^verbatim>\<open>false\<close> or \<^verbatim>\<open>undefined\<close> (React shows nothing), the number 0 (React
  shows the text 0), or the badge with its colour classes and its percentage.
\<close>

datatype BadgeSlot = Nothing | ZeroText | Badge string int

definition similarityBadge :: "bool \<Rightarrow> Recipe \<Rightarrow> BadgeSlot" where
  "similarityBadge showScore recipe =
     (if \<not> showScore then Nothing
      else (case similarityScore recipe of
              None \<Rightarrow> Nothing
            | Some score \<Rightarrow>
                if score = 0 then ZeroText
                else Badge (getSimilarityColor score) (formatSimilarityScore score)))"

text \<open>The corner of every card of the grid, in the grid's order.\<close>

definition gridBadges :: "string \<Rightarrow> GridState \<Rightarrow> BadgeSlot list" where
  "gridBadges searchQuery st =
     map (\<lambda>(recipe, showScore). similarityBadge showScore recipe) (renderGrid searchQuery st)"

section \<open>The API-backed RecipeGrid\<close>

text \<open>
  The second grid component (\<^verbatim>\<open>RecipeGrid\<close>, on react-query). Its three API functions
  (lines 12-40) send these requests, to relative URLs.
\<close>

definition fetchRecipes_request :: Request where
  "fetchRecipes_request = \<lparr> http_method = GET, url = ''/api/recipes'', body = None \<rparr>"

definition searchRecipesByIngredients_request :: "string list \<Rightarrow> Request" where
  "searchRecipesByIngredients_request ings =
     \<lparr> http_method = POST, url = ''/api/recipes/search'', body = Some (SearchBody ings 12) \<rparr>"

definition fetchCategories_request :: Request where
  "fetchCategories_request = \<lparr> http_method = GET, url = ''/api/recipes/categories'', body = None \<rparr>"

text \<open>The effect that parses the query (lines 49-59): the value given to \<^verbatim>\<open>setSearchIngredients\<close>.\<close>

definition searchIngredients :: "string \<Rightarrow> string list" where
  "searchIngredients searchQuery =
     (if trim searchQuery \<noteq> [] then
        filter (\<lambda>ing. length ing > 0) (map trim (split_re searchQuery))
      else [])"

text \<open>The \<^verbatim>\<open>queryFn\<close> of the recipes query (lines 70-76).\<close>

definition recipesQuery_request :: "string \<Rightarrow> Request" where
  "recipesQuery_request searchQuery =
     (if length (searchIngredients searchQuery) > 0 then
        searchRecipesByIngredients_request (searchIngredients searchQuery)
      else fetchRecipes_request)"

text \<open>
  \<^verbatim>\<open>allCategories = ['All', ...categories.slice(0, 10)]\<close> (line 101), and the buttons, shown
  only when \<^verbatim>\<open>allCategories.length > 1\<close> (lines 140-154). \<^verbatim>\<open>categories\<close> is the decoded
  response of the categories query, or the empty list while there is none.
\<close>

definition allCategories :: "string list \<Rightarrow> string list" where
  "allCategories cats = ''All'' # take 10 cats"

definition categoryButtons :: "string list \<Rightarrow> string list" where
  "categoryButtons cats = (if length (allCategories cats) > 1 then allCategories cats else [])"

section \<open>The endpoints of the HTTP surface\<close>

text \<open>
  The five endpoints that section 6 of the specification lists, as a predicate on a
  request; \<open>base\<close> is the origin that precedes the path. The category of a by-category
  request is one non-empty path segment.
\<close>

definition isSegment :: "string \<Rightarrow> bool" where
  "isSegment seg = (seg \<noteq> [] \<and> list_all (\<lambda>c. c \<noteq> CHR ''/'' \<and> c \<noteq> CHR ''?'' \<and> c \<noteq> CHR ''#'') seg)"

definition listedEndpoint :: "string \<Rightarrow> Request \<Rightarrow> bool" where
  "listedEndpoint base r =
     ((http_method r = POST \<and> url r = base @ ''/api/recipes/search'') \<or>
      (http_method r = GET \<and>
         (url r = base @ ''/api/recipes/random'' \<or>
          startsWith (url r) (base @ ''/api/recipes/random?''))) \<or>
      (http_method r = GET \<and> startsWith (url r) (base @ ''/api/recipes/by-category/'') \<and>
         isSegment (drop (length (base @ ''/api/recipes/by-category/'')) (url r))) \<or>
      (http_method r = GET \<and> url r = base @ ''/api/recipes/categories'') \<or>
      (http_method r = GET \<and> url r = base @ ''/api/health''))"

section \<open>Example data\<close>

text \<open>A recipe with a given id, category and similarity score, to evaluate the functions on.\<close>

definition exampleRecipe :: "string \<Rightarrow> string \<Rightarrow> number option \<Rightarrow> BackendRecipe" where
  "exampleRecipe i c s =
     \<lparr> rid = i, title = ''Recipe'', description = ''A recipe'', image = ''/img.png'',
       cookTime = 30, servings = 4, rating = 4, category = c, difficulty = ''Easy'',
       ingredients = [''rice''], instructions = [''Cook.''], similarityScore = s,
       nutrition = \<lparr> calories = None, protein = None, fat = None, carbs = None \<rparr> \<rparr>"

section \<open>The ranking engine of the server\<close>

text \<open>
  Modelled from the spec: the error taxonomy of the server (section 7). The server is
  not among the sources, the client only calls it; this section is its ranking core as
  the specification describes it (sections 3, 4.4, 4.7 and 7).
\<close>

datatype Error = InvalidQuery | InvalidArgument | EmptyCorpus | InternalError

text \<open>
  Modelled from the spec: RecipeVector and QueryVector (section 3), which are not among
  the sources. "Sparse mapping from vocabulary index to non-negative weight,
  L2-normalized (so the vector's own dot product with itself is 1)"; section 4.3: "a zero
  vector (no recognized tokens) stays the zero vector and is legal". The mapping is an
  association list with one entry for each index.
\<close>

type_synonym SparseVector = "(nat \<times> real) list"

definition weight :: "SparseVector \<Rightarrow> nat \<Rightarrow> real" where
  "weight v i = (case map_of v i of None \<Rightarrow> 0 | Some w \<Rightarrow> w)"

definition normSq :: "SparseVector \<Rightarrow> real" where
  "normSq v = sum_list (map (\<lambda>(i, w). w * w) v)"

definition wellFormedVector :: "SparseVector \<Rightarrow> bool" where
  "wellFormedVector v =
     (distinct (map fst v) \<and> list_all (\<lambda>(i, w). 0 \<le> w) v \<and> (normSq v = 1 \<or> normSq v = 0))"

text \<open>
  Modelled from the spec: the Ranker's score (section 4.4), which is not among the
  sources. "Score = dot product of the L2-normalized query vector and each
  L2-normalized RecipeVector".
\<close>

definition dot :: "SparseVector \<Rightarrow> SparseVector \<Rightarrow> real" where
  "dot q v = sum_list (map (\<lambda>(i, w). w * weight v i) q)"

text \<open>
  Modelled from the spec: the Index (section 3), which is not among the sources. It
  owns the recipe and the vector of every id, "every id present in exactly one of each
  mapping": a list of entries with distinct ids, in corpus order.
\<close>

record IndexEntry =
  entry_recipe :: Recipe
  entry_vector :: SparseVector

type_synonym Index = "IndexEntry list"

definition wellFormedIndex :: "Index \<Rightarrow> bool" where
  "wellFormedIndex idx =
     (distinct (map (\<lambda>e. rid (entry_recipe e)) idx) \<and>
      list_all (\<lambda>e. wellFormedVector (entry_vector e)) idx)"

definition ratingOf :: "Index \<Rightarrow> string \<Rightarrow> real" where
  "ratingOf idx i =
     (case find (\<lambda>e. rid (entry_recipe e) = i) idx of
        None \<Rightarrow> 0
      | Some e \<Rightarrow> rating (entry_recipe e))"

text \<open>
  Modelled from the spec: the Ranker's order (section 4.4), which is not among the
  sources. "Tie-break, deterministic: primary key = score descending; secondary key =
  rating descending; tertiary key = id ascending." Ids are strings, compared
  lexicographically. The scored entries are sorted by insertion.
\<close>

definition rankedBefore :: "IndexEntry \<times> real \<Rightarrow> IndexEntry \<times> real \<Rightarrow> bool" where
  "rankedBefore a b =
     (snd a > snd b \<or>
      (snd a = snd b \<and>
        (rating (entry_recipe (fst a)) > rating (entry_recipe (fst b)) \<or>
         (rating (entry_recipe (fst a)) = rating (entry_recipe (fst b)) \<and>
          rid (entry_recipe (fst a)) \<le> rid (entry_recipe (fst b))))))"

fun insertRanked :: "IndexEntry \<times> real \<Rightarrow> (IndexEntry \<times> real) list \<Rightarrow> (IndexEntry \<times> real) list" where
  "insertRanked x [] = [x]"
| "insertRanked x (y # ys) = (if rankedBefore x y then x # y # ys else y # insertRanked x ys)"

definition sortRanked :: "(IndexEntry \<times> real) list \<Rightarrow> (IndexEntry \<times> real) list" where
  "sortRanked xs = foldr insertRanked xs []"

text \<open>
  Modelled from the spec: the Ranker (section 4.4), which is not among the sources.
  "rank(queryVector, index, topN) gives an ordered sequence of (recipeId, score)"; it
  "must evaluate every recipe in the Index"; "topN is clamped to [1, corpus size]; a
  topN \<le> 0 request fails with InvalidArgument. If every candidate scores 0 (no shared
  tokens), the result is an empty sequence, not an error".
\<close>

definition scoreAll :: "SparseVector \<Rightarrow> Index \<Rightarrow> (IndexEntry \<times> real) list" where
  "scoreAll q idx = map (\<lambda>e. (e, dot q (entry_vector e))) idx"

definition clampTopN :: "int \<Rightarrow> Index \<Rightarrow> nat" where
  "clampTopN topN idx = nat (min (max topN 1) (int (length idx)))"

definition rankEntries :: "SparseVector \<Rightarrow> Index \<Rightarrow> int \<Rightarrow> Error + (IndexEntry \<times> real) list" where
  "rankEntries q idx topN =
     (if topN \<le> 0 then Inl InvalidArgument
      else if list_all (\<lambda>(e, s). s = 0) (scoreAll q idx) then Inr []
      else Inr (take (clampTopN topN idx) (sortRanked (scoreAll q idx))))"

definition rank :: "SparseVector \<Rightarrow> Index \<Rightarrow> int \<Rightarrow> Error + (string \<times> real) list" where
  "rank q idx topN =
     (case rankEntries q idx topN of
        Inl e \<Rightarrow> Inl e
      | Inr es \<Rightarrow> Inr (map (\<lambda>(e, s). (rid (entry_recipe e), s)) es))"

text \<open>
  Modelled from the spec: the QueryService's search (sections 4.7 and 7), which is not
  among the sources. It fails with InvalidQuery on "empty/whitespace-only ingredient
  input" and on a non-positive top_n (the Ranker's InvalidArgument surfaces as
  InvalidQuery); otherwise it returns the ranked entries, "each annotated with its
  similarity score, joined back to the full Recipe record". The Normalizer and the
  Vectorizer are the parameter \<open>vectorize\<close>.
\<close>

definition search ::
  "(string list \<Rightarrow> SparseVector) \<Rightarrow> Index \<Rightarrow> string list \<Rightarrow> int \<Rightarrow> Error + Recipe list" where
  "search vectorize idx ings top_n =
     (if list_all (\<lambda>ing. trim ing = []) ings then Inl InvalidQuery
      else (case rankEntries (vectorize ings) idx top_n of
              Inl e \<Rightarrow> Inl InvalidQuery
            | Inr es \<Rightarrow> Inr (map (\<lambda>(e, s). (entry_recipe e)\<lparr>similarityScore := Some s\<rparr>) es)))"

text \<open>An index of four recipes and a query vector, to evaluate the Ranker on.\<close>

definition exampleIndex :: Index where
  "exampleIndex =
     [\<lparr> entry_recipe = convertToRecipeCardFormat (exampleRecipe ''d'' ''Dinner'' None),
        entry_vector = [(0, 1)] \<rparr>,
      \<lparr> entry_recipe = convertToRecipeCardFormat (exampleRecipe ''a'' ''Dinner'' None),
        entry_vector = [(0, 1)] \<rparr>,
      \<lparr> entry_recipe = convertToRecipeCardFormat (exampleRecipe ''b'' ''Dinner'' None),
        entry_vector = [(1, 1)] \<rparr>,
      \<lparr> entry_recipe = convertToRecipeCardFormat (exampleRecipe ''c'' ''Dessert'' None),
        entry_vector = [(2, 1)] \<rparr>]"

definition exampleQuery :: SparseVector where
  "exampleQuery = [(0, 3 / 5), (1, 4 / 5)]"

text \<open>
  Two vectorizers for that index: one gives every query the vector above; the other is
  the Vectorizer on queries whose tokens are all outside the Vocabulary, which drops them
  and gives the zero vector (section 3).
\<close>

definition exampleVectorize :: "string list \<Rightarrow> SparseVector" where
  "exampleVectorize ings = exampleQuery"

definition vectorizeUnknown :: "string list \<Rightarrow> SparseVector" where
  "vectorizeUnknown ings = []"

section \<open>Facts about the string functions\<close>

lemma startsWith_prefix: "startsWith s t \<longleftrightarrow> prefix t s"
  by (induction s t rule: startsWith.induct) auto

lemma includes_str_sublist: "includes_str s t \<longleftrightarrow> sublist t s"
  by (induction s) (simp_all add: startsWith_prefix sublist_Cons_right)

section \<open>The category filter is a substring match\<close>

text \<open>
  C1. For every recipe batch and every selected category other than All, the displayed
  list is exactly the recipes whose lower-cased category contains the lower-cased
  selected category as a substring, in their original order. This is not the server's
  exact case-normalised lookup: the two differ on some batch.
\<close>

theorem filteredRecipes_substring_match:
  assumes "selCategory \<noteq> ''All''"
  shows "filteredRecipes batch selCategory =
           filter (\<lambda>recipe. sublist (toLowerCase selCategory) (toLowerCase (category recipe))) batch
         \<and> (\<exists>(corpus :: BackendRecipe list) cat.
               cat \<noteq> ''All'' \<and> filteredRecipes corpus cat \<noteq> byCategory corpus cat)"
proof
  show "filteredRecipes batch selCategory =
          filter (\<lambda>recipe. sublist (toLowerCase selCategory) (toLowerCase (category recipe))) batch"
    using assms by (simp add: filteredRecipes_def includes_str_sublist)
next
  let ?r = "exampleRecipe ''1'' ''Chicken Breast'' None"
  have l1: "toLowerCase ''Chicken Breast'' = ''chicken breast''" by code_simp
  have l2: "toLowerCase ''Chicken'' = ''chicken''" by code_simp
  have f: "filteredRecipes [?r] ''Chicken'' = [?r]"
    by (simp add: filteredRecipes_def exampleRecipe_def l1 l2)
  have b: "byCategory [?r] ''Chicken'' = []"
    by (simp add: byCategory_def exampleRecipe_def l1 l2)
  have ne: "filteredRecipes [?r] ''Chicken'' \<noteq> byCategory [?r] ''Chicken''"
    unfolding f b by simp
  have c: "''Chicken'' \<noteq> ''All''" by simp
  show "\<exists>(corpus :: BackendRecipe list) cat.
               cat \<noteq> ''All'' \<and> filteredRecipes corpus cat \<noteq> byCategory corpus cat"
    using c ne by (intro exI conjI)
qed

theorem filteredRecipes_substring_match_witness:
  "''chicken'' \<noteq> ''All'' \<and>
   filteredRecipes
     [exampleRecipe ''1'' ''Chicken Breast'' None, exampleRecipe ''2'' ''Dessert'' None,
      exampleRecipe ''3'' ''Fried CHICKEN'' None] ''chicken''
   = [exampleRecipe ''1'' ''Chicken Breast'' None, exampleRecipe ''3'' ''Fried CHICKEN'' None]"
proof -
  have h: "''chicken'' \<noteq> ''All''" by simp
  have l1: "toLowerCase ''Chicken Breast'' = ''chicken breast''" by code_simp
  have l2: "toLowerCase ''Dessert'' = ''dessert''" by code_simp
  have l3: "toLowerCase ''Fried CHICKEN'' = ''fried chicken''" by code_simp
  have l4: "toLowerCase ''chicken'' = ''chicken''" by code_simp
  have s1: "sublist ''chicken'' ''chicken breast''" by code_simp
  have s2: "\<not> sublist ''chicken'' ''dessert''" by code_simp
  have s3: "sublist ''chicken'' ''fried chicken''" by code_simp
  show ?thesis
    using filteredRecipes_substring_match
      [OF h, THEN conjunct1, of "[exampleRecipe ''1'' ''Chicken Breast'' None, exampleRecipe ''2'' ''Dessert'' None,
                  exampleRecipe ''3'' ''Fried CHICKEN'' None]"]
    by (simp add: exampleRecipe_def l1 l2 l3 l4 s1 s2 s3)
qed

section \<open>Facts about the handlers\<close>

lemma searchRecipes_Ok_recipes: "recipes (searchRecipes q (Ok results) st) = results"
  by (simp add: searchRecipes_def Let_def)

lemma searchRecipes_selectedCategory:
  "selectedCategory (searchRecipes q response st) = selectedCategory st"
  by (cases response) (simp_all add: searchRecipes_def Let_def)

lemma filteredRecipes_subseq: "subseq (filteredRecipes rs c) rs"
  by (simp add: filteredRecipes_def)

section \<open>The client keeps the server's order\<close>

text \<open>
  C7. For every search response, the cards that the client renders are the recipes of
  the response that pass the category filter, in the order in which the server returned
  them: the rendered list is a subsequence of the response, it is the whole response under
  the category All, and no step looks at the score to order them.
\<close>

theorem rendered_order_is_server_order:
  "map fst (renderGrid q (searchRecipes q (Ok results) st)) =
     map convertToRecipeCardFormat (filteredRecipes results (selectedCategory st))
   \<and> subseq (filteredRecipes results (selectedCategory st)) results
   \<and> subseq (map fst (renderGrid q (searchRecipes q (Ok results) st)))
        (map convertToRecipeCardFormat results)
   \<and> map fst (renderGrid q (searchRecipes q (Ok results) (st\<lparr>selectedCategory := ''All''\<rparr>))) =
       map convertToRecipeCardFormat results"
proof -
  let ?st' = "searchRecipes q (Ok results) st"
  have shown: "map fst (renderGrid q ?st') =
      map convertToRecipeCardFormat (filteredRecipes results (selectedCategory st))"
    by (simp add: renderGrid_def searchRecipes_Ok_recipes searchRecipes_selectedCategory comp_def)
  have sub: "subseq (filteredRecipes results (selectedCategory st)) results"
    by (rule filteredRecipes_subseq)
  have sub': "subseq (map fst (renderGrid q ?st')) (map convertToRecipeCardFormat results)"
    unfolding shown using sub by (rule subseq_map)
  have all: "map fst (renderGrid q (searchRecipes q (Ok results) (st\<lparr>selectedCategory := ''All''\<rparr>))) =
       map convertToRecipeCardFormat results"
    by (simp add: renderGrid_def searchRecipes_Ok_recipes searchRecipes_selectedCategory comp_def
        filteredRecipes_def)
  from shown sub sub' all show ?thesis by (intro conjI)
qed

section \<open>The similarity badge\<close>

text \<open>
  C8. For every recipe whose similarityScore is 0 or absent, no similarity badge is
  rendered, also during a search: the grid's showSimilarityScore flag is false, the card
  of the grid shows nothing in the badge's place for both, and the card shows no badge
  whatever flag it is given.
\<close>

theorem no_badge_for_zero_or_absent_score:
  assumes "similarityScore recipe = None \<or> similarityScore recipe = Some 0"
  shows "\<not> showSimilarityScore q recipe
         \<and> similarityBadge (showSimilarityScore q recipe) (convertToRecipeCardFormat recipe) = Nothing
         \<and> similarityBadge showScore (convertToRecipeCardFormat recipe) \<noteq> Badge colour pct"
  using assms
  by (auto simp add: showSimilarityScore_def truthy_def similarityBadge_def
      convertToRecipeCardFormat_def)

theorem no_badge_for_zero_or_absent_score_witness:
  "(similarityScore (exampleRecipe ''7'' ''Dessert'' (Some 0)) = None
      \<or> similarityScore (exampleRecipe ''7'' ''Dessert'' (Some 0)) = Some 0)
   \<and> gridBadges ''rice, egg''
        (initialState\<lparr>recipes := [exampleRecipe ''7'' ''Dessert'' (Some 0),
                                   exampleRecipe ''8'' ''Dessert'' None]\<rparr>) = [Nothing, Nothing]"
proof -
  have h: "similarityScore (exampleRecipe ''7'' ''Dessert'' (Some 0)) = None
      \<or> similarityScore (exampleRecipe ''7'' ''Dessert'' (Some 0)) = Some 0"
    by (simp add: exampleRecipe_def)
  have h': "similarityScore (exampleRecipe ''8'' ''Dessert'' None) = None
      \<or> similarityScore (exampleRecipe ''8'' ''Dessert'' None) = Some 0"
    by (simp add: exampleRecipe_def)
  show ?thesis
    using h no_badge_for_zero_or_absent_score [OF h, of "''rice, egg''", THEN conjunct2, THEN conjunct1]
      no_badge_for_zero_or_absent_score [OF h', of "''rice, egg''", THEN conjunct2, THEN conjunct1]
    by (simp add: gridBadges_def renderGrid_def filteredRecipes_def initialState_def)
qed

section \<open>Facts about rounding to a double\<close>

lemma bitLength_le: "n < 2 ^ k \<Longrightarrow> bitLength n \<le> int k"
proof (induction k arbitrary: n)
  case 0
  then show ?case by (subst bitLength.simps) simp
next
  case (Suc k)
  show ?case
  proof (cases "n \<le> 0")
    case True
    then show ?thesis by (subst bitLength.simps) simp
  next
    case False
    from Suc.prems have "n div 2 < 2 ^ k" by simp
    then have "bitLength (n div 2) \<le> int k" by (rule Suc.IH)
    with False show ?thesis by (subst bitLength.simps) simp
  qed
qed

lemma bitLength_eq: "2 ^ m \<le> n \<Longrightarrow> n < 2 ^ Suc m \<Longrightarrow> bitLength n = int m + 1"
proof (induction m arbitrary: n)
  case 0
  then have n: "n = 1" by simp
  have "bitLength 0 = 0" by (subst bitLength.simps) simp
  then show ?case unfolding n by (subst bitLength.simps) simp
next
  case (Suc m)
  from Suc.prems have pos: "\<not> n \<le> 0"
    by (smt (verit) zero_less_power)
  from Suc.prems have "2 ^ m \<le> n div 2" "n div 2 < 2 ^ Suc m" by simp_all
  then have "bitLength (n div 2) = int m + 1" by (rule Suc.IH)
  with pos show ?case by (subst bitLength.simps) simp
qed

lemma quantumExponent_nonpos:
  assumes "\<bar>x\<bar> < 2 ^ 53"
  shows "quantumExponent x \<le> 0"
proof -
  have "\<bar>x\<bar> * 2 ^ 1074 < 2 ^ 53 * 2 ^ 1074"
    using assms by (simp only: mult_less_cancel_right_pos zero_less_power zero_less_numeral)
  also have "\<dots> = (2::real) ^ 1127" by (simp flip: power_add)
  finally have "\<lfloor>\<bar>x\<bar> * 2 ^ 1074\<rfloor> < 2 ^ 1127"
    by (simp only: floor_less_iff of_int_power of_int_numeral)
  then have "bitLength \<lfloor>\<bar>x\<bar> * 2 ^ 1074\<rfloor> \<le> int 1127" by (rule bitLength_le)
  then show ?thesis by (simp add: quantumExponent_def)
qed

lemma roundTiesToEven_le: "x \<le> of_int n \<Longrightarrow> roundTiesToEven x \<le> n"
proof -
  assume a: "x \<le> of_int n"
  then have f: "\<lfloor>x\<rfloor> \<le> n" by (simp add: floor_le_iff)
  show ?thesis
  proof (cases "\<lfloor>x\<rfloor> = n")
    case True
    then have "x = of_int n" using a of_int_floor_le [of x] by simp
    then show ?thesis by (simp add: roundTiesToEven_def)
  next
    case False
    with f have "\<lfloor>x\<rfloor> + 1 \<le> n" by simp
    then show ?thesis by (simp add: roundTiesToEven_def Let_def)
  qed
qed

lemma roundTiesToEven_ge: "of_int n \<le> x \<Longrightarrow> n \<le> roundTiesToEven x"
proof -
  assume "of_int n \<le> x"
  then have "n \<le> \<lfloor>x\<rfloor>" by (simp add: le_floor_iff)
  then show ?thesis by (simp add: roundTiesToEven_def Let_def)
qed

lemma roundTiesToEven_nearest:
  "\<bar>x - of_int m\<bar> < 1 / 2 \<Longrightarrow> roundTiesToEven x = m"
proof -
  assume a: "\<bar>x - of_int m\<bar> < 1 / 2"
  show ?thesis
  proof (cases "of_int m \<le> x")
    case True
    with a have "\<lfloor>x\<rfloor> = m" by (intro floor_unique) auto
    with a True show ?thesis by (simp add: roundTiesToEven_def Let_def)
  next
    case False
    with a have f: "\<lfloor>x\<rfloor> = m - 1" by (intro floor_unique) auto
    with a False show ?thesis by (auto simp add: roundTiesToEven_def Let_def)
  qed
qed

lemma roundDouble_le_int:
  assumes "quantumExponent x \<le> 0" and "x \<le> of_int c"
  shows "roundDouble x \<le> of_int c"
proof -
  obtain k :: nat where e: "quantumExponent x = - int k"
    using assms(1) by (metis nonpos_int_cases)
  have p: "2 powi quantumExponent x = 1 / (2::real) ^ k"
    unfolding e by (simp add: power_int_minus_divide)
  have "x * 2 ^ k \<le> of_int c * 2 ^ k" using assms(2) by simp
  then have "x * 2 ^ k \<le> of_int (c * 2 ^ k)" by simp
  then have "roundTiesToEven (x * 2 ^ k) \<le> c * 2 ^ k" by (rule roundTiesToEven_le)
  then have "real_of_int (roundTiesToEven (x * 2 ^ k)) \<le> real_of_int (c * 2 ^ k)"
    by (simp only: of_int_le_iff)
  then have "real_of_int (roundTiesToEven (x * 2 ^ k)) / 2 ^ k \<le> of_int c"
    by (simp add: divide_le_eq)
  then show ?thesis by (simp add: roundDouble_def p)
qed

lemma roundDouble_ge_int:
  assumes "quantumExponent x \<le> 0" and "of_int c \<le> x"
  shows "of_int c \<le> roundDouble x"
proof -
  obtain k :: nat where e: "quantumExponent x = - int k"
    using assms(1) by (metis nonpos_int_cases)
  have p: "2 powi quantumExponent x = 1 / (2::real) ^ k"
    unfolding e by (simp add: power_int_minus_divide)
  have "of_int c * 2 ^ k \<le> x * 2 ^ k" using assms(2) by simp
  then have "of_int (c * 2 ^ k) \<le> x * 2 ^ k" by simp
  then have "c * 2 ^ k \<le> roundTiesToEven (x * 2 ^ k)" by (rule roundTiesToEven_ge)
  then have "real_of_int (c * 2 ^ k) \<le> real_of_int (roundTiesToEven (x * 2 ^ k))"
    by (simp only: of_int_le_iff)
  then have "of_int c \<le> real_of_int (roundTiesToEven (x * 2 ^ k)) / 2 ^ k"
    by (simp add: le_divide_eq)
  then show ?thesis by (simp add: roundDouble_def p)
qed

lemma roundDouble_100: "roundDouble 100 = 100"
proof -
  have e: "quantumExponent 100 \<le> 0" by (rule quantumExponent_nonpos) simp
  have "roundDouble 100 \<le> of_int 100" by (rule roundDouble_le_int [OF e]) simp
  moreover have "of_int 100 \<le> roundDouble 100" by (rule roundDouble_ge_int [OF e]) simp
  ultimately show ?thesis by simp
qed

lemma percentage_range:
  assumes "0 \<le> s" and "s \<le> 1"
  shows "0 \<le> timesDouble s 100 \<and> timesDouble s 100 \<le> 100"
proof -
  have es: "quantumExponent s \<le> 0"
    by (rule quantumExponent_nonpos) (use assms in simp)
  have "of_int 0 \<le> roundDouble s" by (rule roundDouble_ge_int [OF es]) (use assms in simp)
  then have lo: "0 \<le> roundDouble s" by simp
  have "roundDouble s \<le> of_int 1" by (rule roundDouble_le_int [OF es]) (use assms in simp)
  then have hi: "roundDouble s \<le> 1" by simp
  let ?p = "roundDouble s * roundDouble 100"
  have p: "0 \<le> ?p" "?p \<le> 100"
    using lo hi by (simp_all add: roundDouble_100)
  then have ep: "quantumExponent ?p \<le> 0"
    by (intro quantumExponent_nonpos) simp
  have "of_int 0 \<le> roundDouble ?p" by (rule roundDouble_ge_int [OF ep]) (use p in simp)
  moreover have "roundDouble ?p \<le> of_int 100" by (rule roundDouble_le_int [OF ep]) (use p in simp)
  ultimately show ?thesis by (simp add: timesDouble_def)
qed

lemma quantumExponent_eq:
  assumes "2 powi k \<le> \<bar>x\<bar>" and "\<bar>x\<bar> < 2 powi (k + 1)" and "- 1022 \<le> k"
  shows "quantumExponent x = k - 52"
proof -
  define m where "m = nat (k + 1074)"
  have k: "k = int m - 1074" using assms(3) by (simp add: m_def)
  have scale: "2 powi j * 2 ^ 1074 = (2::real) powi (j + 1074)" for j
  proof -
    have "(2::real) powi (j + 1074) = 2 powi j * 2 powi 1074"
      by (rule power_int_add) simp
    then show ?thesis by (simp only: power_int_numeral)
  qed
  have nn: "(0::real) \<le> 2 ^ 1074" and pos: "(0::real) < 2 ^ 1074"
    by (simp_all only: zero_le_power zero_less_power zero_le_numeral zero_less_numeral)
  have "2 powi k * 2 ^ 1074 \<le> \<bar>x\<bar> * 2 ^ 1074"
    using assms(1) nn by (rule mult_right_mono)
  then have "(2::real) powi (k + 1074) \<le> \<bar>x\<bar> * 2 ^ 1074"
    by (simp only: scale)
  moreover have "k + 1074 = int m" by (simp add: k)
  ultimately have lo: "(2::real) ^ m \<le> \<bar>x\<bar> * 2 ^ 1074"
    by (simp only: power_int_of_nat)
  have "\<bar>x\<bar> * 2 ^ 1074 < 2 powi (k + 1) * 2 ^ 1074"
    using assms(2) pos by (rule mult_strict_right_mono)
  then have "\<bar>x\<bar> * 2 ^ 1074 < (2::real) powi (k + 1 + 1074)"
    by (simp only: scale)
  moreover have "k + 1 + 1074 = int (Suc m)" by (simp add: k)
  ultimately have hi: "\<bar>x\<bar> * 2 ^ 1074 < (2::real) ^ Suc m"
    by (simp only: power_int_of_nat)
  from lo have "2 ^ m \<le> \<lfloor>\<bar>x\<bar> * 2 ^ 1074\<rfloor>"
    by (simp only: le_floor_iff of_int_power of_int_numeral)
  moreover from hi have "\<lfloor>\<bar>x\<bar> * 2 ^ 1074\<rfloor> < 2 ^ Suc m"
    by (simp only: floor_less_iff of_int_power of_int_numeral)
  ultimately have "bitLength \<lfloor>\<bar>x\<bar> * 2 ^ 1074\<rfloor> = int m + 1"
    by (rule bitLength_eq)
  then show ?thesis
    using assms(3) by (simp add: quantumExponent_def k)
qed

lemma roundDouble_eqI:
  assumes "2 powi k \<le> \<bar>x\<bar>" and "\<bar>x\<bar> < 2 powi (k + 1)" and "- 1022 \<le> k"
    and "\<bar>x / 2 powi (k - 52) - of_int m\<bar> < 1 / 2"
  shows "roundDouble x = of_int m * 2 powi (k - 52)"
proof -
  have e: "quantumExponent x = k - 52"
    using assms(1-3) by (rule quantumExponent_eq)
  have "roundTiesToEven (x / 2 powi (k - 52)) = m"
    using assms(4) by (rule roundTiesToEven_nearest)
  then show ?thesis by (simp add: roundDouble_def e)
qed

lemma bitLength_nonneg: "0 \<le> bitLength n"
proof (induction n rule: bitLength.induct)
  case (1 n)
  then show ?case by (subst bitLength.simps) simp
qed

lemma bitLength_bound: "n < 2 ^ nat (bitLength n)"
proof (induction n rule: bitLength.induct)
  case (1 n)
  show ?case
  proof (cases "n \<le> 0")
    case True
    then show ?thesis by (subst bitLength.simps) simp
  next
    case False
    then have "n div 2 < 2 ^ nat (bitLength (n div 2))" by (rule "1.IH")
    then have "n < 2 * 2 ^ nat (bitLength (n div 2))" by simp
    moreover have "bitLength n = 1 + bitLength (n div 2)"
      using False by (subst bitLength.simps) simp
    ultimately show ?thesis
      using bitLength_nonneg [of "n div 2"] by (simp add: nat_add_distrib)
  qed
qed

lemma quantumExponent_ge: "- 1074 \<le> quantumExponent x"
  by (simp add: quantumExponent_def)

lemma scale_1074: "2 powi j * 2 ^ 1074 = (2::real) powi (j + 1074)"
proof -
  have "(2::real) powi (j + 1074) = 2 powi j * 2 powi 1074"
    by (rule power_int_add) simp
  then show ?thesis by (simp only: power_int_numeral)
qed

lemma magnitude_below_quantum: "\<bar>x\<bar> < 2 powi (quantumExponent x + 53)"
proof -
  let ?n = "\<lfloor>\<bar>x\<bar> * 2 ^ 1074\<rfloor>"
  let ?e = "quantumExponent x"
  have b: "bitLength ?n \<le> ?e + 1127" by (simp add: quantumExponent_def)
  have "?n < 2 ^ nat (bitLength ?n)" by (rule bitLength_bound)
  then have "?n + 1 \<le> 2 ^ nat (bitLength ?n)" by simp
  then have "real_of_int (?n + 1) \<le> real_of_int (2 ^ nat (bitLength ?n))"
    by (simp only: of_int_le_iff)
  then have "real_of_int ?n + 1 \<le> 2 ^ nat (bitLength ?n)" by simp
  moreover have "\<bar>x\<bar> * 2 ^ 1074 < real_of_int ?n + 1" by linarith
  ultimately have "\<bar>x\<bar> * 2 ^ 1074 < 2 ^ nat (bitLength ?n)" by (rule less_le_trans [rotated])
  also have "\<dots> = 2 powi (bitLength ?n)"
    using bitLength_nonneg [of ?n] by (simp add: power_int_def)
  also have "\<dots> \<le> 2 powi (?e + 1127)"
    using b by (intro power_int_increasing) simp_all
  also have "\<dots> = 2 powi (?e + 53) * 2 ^ 1074"
    by (simp only: scale_1074) (simp add: add.assoc)
  finally show ?thesis
    by (simp only: mult_less_cancel_right_pos zero_less_power zero_less_numeral)
qed

lemma quantumExponent_le:
  assumes "\<bar>y\<bar> < 2 powi (e + 53)" and "- 1074 \<le> e"
  shows "quantumExponent y \<le> e"
proof -
  have pos: "(0::real) < 2 ^ 1074"
    by (simp only: zero_less_power zero_less_numeral)
  have "\<bar>y\<bar> * 2 ^ 1074 < 2 powi (e + 53) * 2 ^ 1074"
    using assms(1) pos by (rule mult_strict_right_mono)
  also have "\<dots> = 2 powi (e + 53 + 1074)" by (rule scale_1074)
  also have "\<dots> = 2 ^ nat (e + 1127)"
    using assms(2) by (simp add: power_int_def)
  finally have "\<lfloor>\<bar>y\<bar> * 2 ^ 1074\<rfloor> < 2 ^ nat (e + 1127)"
    by (simp only: floor_less_iff of_int_power of_int_numeral)
  then have "bitLength \<lfloor>\<bar>y\<bar> * 2 ^ 1074\<rfloor> \<le> int (nat (e + 1127))"
    by (rule bitLength_le)
  then show ?thesis using assms(2) by (simp add: quantumExponent_def)
qed

lemma roundTiesToEven_of_int: "roundTiesToEven (of_int z) = z"
  by (simp add: roundTiesToEven_def)

lemma roundDouble_grid:
  assumes "y = of_int M * 2 powi e" and "quantumExponent y \<le> e"
  shows "roundDouble y = y"
proof -
  define e' where "e' = quantumExponent y"
  define k where "k = nat (e - e')"
  have k: "e = e' + int k"
    using assms(2) by (simp add: k_def e'_def)
  have "(2::real) powi (e' + int k) = 2 powi e' * 2 powi (int k)"
    by (rule power_int_add) simp
  then have p: "(2::real) powi e = 2 powi e' * 2 ^ k"
    by (simp only: k power_int_of_nat)
  have y: "y = of_int (M * 2 ^ k) * 2 powi e'"
    by (simp add: assms(1) p)
  have nz: "(2::real) powi e' \<noteq> 0" by simp
  have q: "y / 2 powi e' = of_int (M * 2 ^ k)"
    by (subst y) (simp only: nonzero_mult_div_cancel_right [OF nz])
  have "roundDouble y = of_int (roundTiesToEven (y / 2 powi e')) * 2 powi e'"
    by (simp only: roundDouble_def e'_def)
  also have "\<dots> = of_int (M * 2 ^ k) * 2 powi e'"
    by (simp only: q roundTiesToEven_of_int)
  also have "\<dots> = y" by (rule y [symmetric])
  finally show ?thesis .
qed

lemma roundDouble_idem: "roundDouble (roundDouble x) = roundDouble x"
proof -
  define e where "e = quantumExponent x"
  define M where "M = roundTiesToEven (x / 2 powi e)"
  have y: "roundDouble x = of_int M * 2 powi e"
    by (simp only: roundDouble_def M_def e_def)
  have e_ge: "- 1074 \<le> e" unfolding e_def by (rule quantumExponent_ge)
  have pe: "(0::real) < 2 powi e" by simp
  have split53: "(2::real) powi (j + 53) = 2 ^ 53 * 2 powi j" for j
  proof -
    have "(2::real) powi (j + 53) = 2 powi j * 2 powi 53"
      by (rule power_int_add) simp
    then show ?thesis by (simp only: power_int_numeral mult.commute)
  qed
  have "\<bar>x\<bar> < 2 powi (e + 53)"
    unfolding e_def by (rule magnitude_below_quantum)
  then have "\<bar>x\<bar> < 2 ^ 53 * 2 powi e" by (simp only: split53)
  then have "\<bar>x\<bar> / 2 powi e < 2 ^ 53"
    using pe by (simp only: pos_divide_less_eq)
  moreover have "\<bar>x / 2 powi e\<bar> = \<bar>x\<bar> / 2 powi e"
    using pe by (simp only: abs_divide abs_of_pos)
  ultimately have a: "\<bar>x / 2 powi e\<bar> < 2 ^ 53" by simp
  from a have "x / 2 powi e \<le> 2 ^ 53" by linarith
  then have "x / 2 powi e \<le> of_int (2 ^ 53)" by simp
  then have M1: "M \<le> 2 ^ 53" unfolding M_def by (rule roundTiesToEven_le)
  from a have "- (2 ^ 53) \<le> x / 2 powi e" by linarith
  then have "of_int (- (2 ^ 53)) \<le> x / 2 powi e" by simp
  then have M2: "- (2 ^ 53) \<le> M" unfolding M_def by (rule roundTiesToEven_ge)
  show ?thesis
  proof (cases "\<bar>M\<bar> < 2 ^ 53")
    case True
    then have "real_of_int \<bar>M\<bar> < real_of_int (2 ^ 53)" by (simp only: of_int_less_iff)
    then have "\<bar>real_of_int M\<bar> < 2 ^ 53" by simp
    then have "\<bar>real_of_int M\<bar> * 2 powi e < 2 ^ 53 * 2 powi e"
      using pe by (rule mult_strict_right_mono)
    moreover have "\<bar>roundDouble x\<bar> = \<bar>real_of_int M\<bar> * 2 powi e"
      unfolding y using pe by (simp only: abs_mult abs_of_pos)
    ultimately have "\<bar>roundDouble x\<bar> < 2 powi (e + 53)"
      by (simp only: split53)
    then have "quantumExponent (roundDouble x) \<le> e"
      using e_ge by (rule quantumExponent_le)
    with y show ?thesis by (rule roundDouble_grid)
  next
    case False
    with M1 M2 have "M = 2 ^ 53 \<or> M = - (2 ^ 53)" by linarith
    then obtain H :: int where H: "M = H * 2" and Habs: "\<bar>H\<bar> = 2 ^ 52"
    proof
      assume "M = 2 ^ 53"
      then have "M = 2 ^ 52 * 2" "\<bar>(2::int) ^ 52\<bar> = 2 ^ 52" by simp_all
      then show ?thesis by (rule that)
    next
      assume "M = - (2 ^ 53)"
      then have "M = (- (2 ^ 52)) * 2" "\<bar>- ((2::int) ^ 52)\<bar> = 2 ^ 52" by simp_all
      then show ?thesis by (rule that)
    qed
    have pe1: "(0::real) < 2 powi (e + 1)" by simp
    have "(2::real) powi (e + 1) = 2 powi e * 2 powi 1"
      by (rule power_int_add) simp
    then have two: "(2::real) powi (e + 1) = 2 powi e * 2" by simp
    have y': "roundDouble x = of_int H * 2 powi (e + 1)"
      by (simp add: y H two)
    have "real_of_int \<bar>H\<bar> = real_of_int (2 ^ 52)" by (simp only: Habs)
    then have Hr: "\<bar>real_of_int H\<bar> = 2 ^ 52" by simp
    have "\<bar>roundDouble x\<bar> = \<bar>real_of_int H\<bar> * 2 powi (e + 1)"
      unfolding y' using pe1 by (simp only: abs_mult abs_of_pos)
    also have "\<dots> = 2 ^ 52 * 2 powi (e + 1)" by (simp only: Hr)
    also have "\<dots> < 2 ^ 53 * 2 powi (e + 1)"
      using pe1 by (intro mult_strict_right_mono) simp_all
    also have "\<dots> = 2 powi (e + 1 + 53)" by (simp only: split53)
    finally have "\<bar>roundDouble x\<bar> < 2 powi (e + 1 + 53)" .
    moreover have "- 1074 \<le> e + 1" using e_ge by simp
    ultimately have "quantumExponent (roundDouble x) \<le> e + 1"
      by (rule quantumExponent_le)
    with y' show ?thesis by (rule roundDouble_grid)
  qed
qed

lemma timesDouble_doubles:
  "roundDouble a = a \<Longrightarrow> roundDouble b = b \<Longrightarrow> timesDouble a b = roundDouble (a * b)"
  by (simp add: timesDouble_def)

lemma timesDouble_example_1: "timesDouble (3 / 200) 100 = 3 / 2"
proof -
  have a: "roundDouble (3 / 200) = 8646911284551352 * 2 powi (- 59)"
    using roundDouble_eqI [of "- 7" "3 / 200" 8646911284551352] by simp
  have "roundDouble (8646911284551352 * 2 powi (- 59) * 100) =
      of_int 6755399441055744 * 2 powi (0 - 52)"
    by (rule roundDouble_eqI) simp_all
  then show ?thesis by (simp add: timesDouble_def a roundDouble_100)
qed

lemma timesDouble_example_2: "timesDouble (3 / 5) 100 = 60"
proof -
  have a: "roundDouble (3 / 5) = 5404319552844595 * 2 powi (- 53)"
    using roundDouble_eqI [of "- 1" "3 / 5" 5404319552844595] by simp
  have "roundDouble (5404319552844595 * 2 powi (- 53) * 100) =
      of_int 8444249301319680 * 2 powi (5 - 52)"
    by (rule roundDouble_eqI) simp_all
  then show ?thesis by (simp add: timesDouble_def a roundDouble_100)
qed

section \<open>The badge's percentage and colour\<close>

text \<open>
  C9. For every similarityScore s in [0,1], the badge's number is Math.round(s * 100),
  with the product of the source, on doubles: an integer in [0,100], the nearest to
  that product. The colour is green from 80, yellow from 60, orange from 40 and red
  below, on the same product.
\<close>

theorem badge_percentage_and_colour:
  assumes "0 \<le> s" and "s \<le> 1"
  shows "formatSimilarityScore s = Math_round (timesDouble s 100)
         \<and> 0 \<le> formatSimilarityScore s \<and> formatSimilarityScore s \<le> 100
         \<and> \<bar>real_of_int (formatSimilarityScore s) - timesDouble s 100\<bar> \<le> 1 / 2
         \<and> getSimilarityColor s =
             (if timesDouble s 100 \<ge> 80 then ''text-green-400 bg-green-500/20''
              else if timesDouble s 100 \<ge> 60 then ''text-yellow-400 bg-yellow-500/20''
              else if timesDouble s 100 \<ge> 40 then ''text-orange-400 bg-orange-500/20''
              else ''text-red-400 bg-red-500/20'')
         \<and> similarityBadge True (r\<lparr>similarityScore := Some s\<rparr>) =
             (if s = 0 then ZeroText
              else Badge (getSimilarityColor s) (Math_round (timesDouble s 100)))"
proof -
  let ?p = "timesDouble s 100"
  from percentage_range [OF assms] have p0: "0 \<le> ?p" and p100: "?p \<le> 100"
    by simp_all
  have f: "formatSimilarityScore s = Math_round ?p"
    by (simp add: formatSimilarityScore_def)
  have fl: "formatSimilarityScore s = \<lfloor>?p + 1 / 2\<rfloor>"
    by (simp add: formatSimilarityScore_def Math_round_def)
  have lo: "0 \<le> formatSimilarityScore s"
    unfolding fl using p0 by simp
  have "?p + 1 / 2 < 101" using p100 by simp
  then have "\<lfloor>?p + 1 / 2\<rfloor> < 101" by (simp add: floor_less_iff)
  then have hi: "formatSimilarityScore s \<le> 100"
    unfolding fl by simp
  have near: "\<bar>real_of_int (formatSimilarityScore s) - ?p\<bar> \<le> 1 / 2"
    unfolding fl by linarith
  have col: "getSimilarityColor s =
             (if ?p \<ge> 80 then ''text-green-400 bg-green-500/20''
              else if ?p \<ge> 60 then ''text-yellow-400 bg-yellow-500/20''
              else if ?p \<ge> 40 then ''text-orange-400 bg-orange-500/20''
              else ''text-red-400 bg-red-500/20'')"
    by (simp add: getSimilarityColor_def Let_def)
  have badge: "similarityBadge True (r\<lparr>similarityScore := Some s\<rparr>) =
             (if s = 0 then ZeroText
              else Badge (getSimilarityColor s) (Math_round ?p))"
    by (simp add: similarityBadge_def f)
  from f lo hi near col badge show ?thesis by (intro conjI)
qed

theorem badge_percentage_and_colour_witness:
  "(0::real) \<le> 3 / 200 \<and> (3 / 200 :: real) \<le> 1
   \<and> formatSimilarityScore (3 / 200) = 2
   \<and> getSimilarityColor (3 / 200) = ''text-red-400 bg-red-500/20''
   \<and> (0::real) \<le> 3 / 5 \<and> (3 / 5 :: real) \<le> 1
   \<and> formatSimilarityScore (3 / 5) = 60
   \<and> getSimilarityColor (3 / 5) = ''text-yellow-400 bg-yellow-500/20''"
proof -
  have a0: "(0::real) \<le> 3 / 200" and a1: "(3 / 200 :: real) \<le> 1" by simp_all
  have b0: "(0::real) \<le> 3 / 5" and b1: "(3 / 5 :: real) \<le> 1" by simp_all
  note ta = badge_percentage_and_colour [OF a0 a1]
  note tb = badge_percentage_and_colour [OF b0 b1]
  have fa: "formatSimilarityScore (3 / 200) = 2"
    using ta [THEN conjunct1] by (simp add: timesDouble_example_1 Math_round_def)
  have ca: "getSimilarityColor (3 / 200) = ''text-red-400 bg-red-500/20''"
    using ta [THEN conjunct2, THEN conjunct2, THEN conjunct2, THEN conjunct2, THEN conjunct1]
    by (simp add: timesDouble_example_1)
  have fb: "formatSimilarityScore (3 / 5) = 60"
    using tb [THEN conjunct1] by (simp add: timesDouble_example_2 Math_round_def)
  have cb: "getSimilarityColor (3 / 5) = ''text-yellow-400 bg-yellow-500/20''"
    using tb [THEN conjunct2, THEN conjunct2, THEN conjunct2, THEN conjunct2, THEN conjunct1]
    by (simp add: timesDouble_example_2)
  from a0 a1 fa ca b0 b1 fb cb show ?thesis by (intro conjI)
qed

section \<open>The category buttons\<close>

text \<open>
  C10. The API-backed RecipeGrid shows at most 11 category buttons: All, then the first
  10 names of the categories response and none of the later ones (and no button at all
  when the response has no name). RecipeGridWithBackend shows All and every name of the
  response, whatever their number.
\<close>

theorem category_buttons_cap:
  "allCategories cats = ''All'' # take 10 cats
   \<and> length (categoryButtons cats) \<le> 11
   \<and> categoryButtons cats = (if cats = [] then [] else ''All'' # take 10 cats)
   \<and> categoryButtons cats = categoryButtons (take 10 cats)
   \<and> categoryButtons_backend (loadCategories (Ok cats) st) = ''All'' # cats
   \<and> length (categoryButtons_backend (loadCategories (Ok cats) st)) = Suc (length cats)"
  by (cases cats)
     (simp_all add: allCategories_def categoryButtons_def categoryButtons_backend_def
       loadCategories_def)

section \<open>An empty search result is not a failed search\<close>

text \<open>
  C3. In the search handler, a response that is not ok and an ok response with an empty
  array have different outcomes, and the handler tells them apart by the response's ok
  status: a failed search keeps the recipes and reports that the search failed, whatever
  the body; an ok response replaces the recipes, and reports that no recipe was found
  when the array is empty.
\<close>

theorem empty_result_differs_from_failure:
  assumes "trim q \<noteq> []"
  shows "searchRecipes q (Ok []) st \<noteq> searchRecipes q NotOk st
         \<and> error (searchRecipes q (Ok []) st) =
             Some ''No recipes found for your ingredients. Try different ingredients or check spelling.''
         \<and> recipes (searchRecipes q (Ok []) st) = []
         \<and> error (searchRecipes q NotOk st) = Some ''Search failed. Please try again.''
         \<and> recipes (searchRecipes q NotOk st) = recipes st
         \<and> error (searchRecipes q Rejected st) = Some ''Search failed. Please try again.''
         \<and> error (searchRecipes q (Ok (r # rs)) st) = None"
proof -
  let ?none = "''No recipes found for your ingredients. Try different ingredients or check spelling.''"
  have e1: "error (searchRecipes q (Ok []) st) = Some ?none"
    using assms by (simp add: searchRecipes_def Let_def)
  have e2: "error (searchRecipes q NotOk st) = Some ''Search failed. Please try again.''"
    using assms by (simp add: searchRecipes_def Let_def)
  have e3: "error (searchRecipes q Rejected st) = Some ''Search failed. Please try again.''"
    using assms by (simp add: searchRecipes_def Let_def)
  have e4: "error (searchRecipes q (Ok (r # rs)) st) = None"
    using assms by (simp add: searchRecipes_def Let_def)
  have r1: "recipes (searchRecipes q (Ok []) st) = []"
    by (rule searchRecipes_Ok_recipes)
  have r2: "recipes (searchRecipes q NotOk st) = recipes st"
    using assms by (simp add: searchRecipes_def Let_def)
  have "error (searchRecipes q (Ok []) st) \<noteq> error (searchRecipes q NotOk st)"
    unfolding e1 e2 by simp
  then have ne: "searchRecipes q (Ok []) st \<noteq> searchRecipes q NotOk st"
    by (rule contrapos_nn) simp
  from ne e1 r1 e2 r2 e3 e4 show ?thesis by (intro conjI)
qed

theorem empty_result_differs_from_failure_witness:
  "trim ''tofu'' \<noteq> []
   \<and> error (searchRecipes ''tofu'' (Ok []) initialState) \<noteq>
       error (searchRecipes ''tofu'' NotOk initialState)"
proof -
  have h: "trim ''tofu'' \<noteq> []" by (simp add: trim_def isWhiteSpace_def)
  show ?thesis
    using h empty_result_differs_from_failure [OF h, of initialState] by simp
qed

section \<open>Facts about trimming and splitting\<close>

lemma trim_empty_iff: "trim s = [] \<longleftrightarrow> list_all isWhiteSpace s"
proof -
  have "trim s = [] \<longleftrightarrow> (\<forall>x\<in>set (dropWhile isWhiteSpace s). isWhiteSpace x)"
    by (simp add: trim_def dropWhile_eq_Nil_conv)
  also have "\<dots> \<longleftrightarrow> dropWhile isWhiteSpace s = []"
  proof
    assume a: "\<forall>x\<in>set (dropWhile isWhiteSpace s). isWhiteSpace x"
    show "dropWhile isWhiteSpace s = []"
    proof (rule ccontr)
      assume n: "dropWhile isWhiteSpace s \<noteq> []"
      then have "\<not> isWhiteSpace (hd (dropWhile isWhiteSpace s))" by (rule hd_dropWhile)
      moreover have "hd (dropWhile isWhiteSpace s) \<in> set (dropWhile isWhiteSpace s)"
        using n by (rule hd_in_set)
      ultimately show False using a by simp
    qed
  next
    assume e: "dropWhile isWhiteSpace s = []"
    show "\<forall>x\<in>set (dropWhile isWhiteSpace s). isWhiteSpace x" unfolding e by simp
  qed
  also have "\<dots> \<longleftrightarrow> list_all isWhiteSpace s"
    by (simp add: dropWhile_eq_Nil_conv list_all_iff)
  finally show ?thesis .
qed

lemma trim_no_white: "list_all (\<lambda>c. \<not> isWhiteSpace c) s \<Longrightarrow> trim s = s"
proof -
  assume a: "list_all (\<lambda>c. \<not> isWhiteSpace c) s"
  have d: "dropWhile isWhiteSpace xs = xs" if "list_all (\<lambda>c. \<not> isWhiteSpace c) xs" for xs
    using that by (cases xs) simp_all
  have "list_all (\<lambda>c. \<not> isWhiteSpace c) (rev s)" using a by (simp add: list_all_iff)
  then show ?thesis using a by (simp add: trim_def d)
qed

lemma split_go_pieces:
  "list_all (\<lambda>c. \<not> isSeparator c) acc \<Longrightarrow>
   list_all (list_all (\<lambda>c. \<not> isSeparator c)) (split_go acc inSep cs)"
proof (induction cs arbitrary: acc inSep)
  case Nil
  then show ?case by simp
next
  case (Cons c cs)
  show ?case
  proof (cases "isSeparator c")
    case True
    have e: "list_all (\<lambda>c. \<not> isSeparator c) []" by simp
    show ?thesis
      using True Cons.IH [OF Cons.prems, of True] Cons.IH [OF e, of True] Cons.prems
      by (cases inSep) simp_all
  next
    case False
    then have "list_all (\<lambda>c. \<not> isSeparator c) (c # acc)"
      using Cons.prems by simp
    from Cons.IH [OF this, of False] show ?thesis
      using False by simp
  qed
qed

lemma split_re_pieces: "list_all (list_all (\<lambda>c. \<not> isSeparator c)) (split_re s)"
  by (simp add: split_re_def split_go_pieces)

lemma split_go_nonempty_pieces:
  "filter (\<lambda>p. p \<noteq> []) (split_go acc inSep cs) = [] \<longleftrightarrow> acc = [] \<and> list_all isSeparator cs"
  by (induction cs arbitrary: acc inSep) auto

lemma piece_trim: "list_all (\<lambda>c. \<not> isSeparator c) p \<Longrightarrow> trim p = p"
  by (rule trim_no_white) (simp add: list_all_iff isSeparator_def)

lemma parseIngredients_pieces:
  "parseIngredients q = filter (\<lambda>p. p \<noteq> []) (split_re q)"
  unfolding parseIngredients_def
  by (rule filter_cong [OF refl]) (use split_re_pieces [of q] in \<open>simp add: list_all_iff piece_trim\<close>)

lemma parseIngredients_empty_iff: "parseIngredients q = [] \<longleftrightarrow> list_all isSeparator q"
  by (simp add: parseIngredients_pieces split_re_def split_go_nonempty_pieces)

lemma parseIngredients_no_empty_string: "[] \<notin> set (parseIngredients q)"
  by (simp add: parseIngredients_pieces)

lemma searchIngredients_pieces:
  "searchIngredients q = (if trim q \<noteq> [] then filter (\<lambda>p. p \<noteq> []) (split_re q) else [])"
proof -
  have "map trim (split_re q) = split_re q"
    by (rule map_idI) (use split_re_pieces [of q] in \<open>simp add: list_all_iff piece_trim\<close>)
  then show ?thesis by (simp add: searchIngredients_def)
qed

lemma blank_query_sends_no_search:
  "list_all isWhiteSpace q \<Longrightarrow>
   searchRecipes_request base q =
     \<lparr> http_method = GET, url = base @ ''/api/recipes/random?count=50'', body = None \<rparr>"
  by (simp add: searchRecipes_request_def trim_empty_iff)

lemma recipesQuery_search_body:
  "body (recipesQuery_request q) = Some (SearchBody ings n) \<Longrightarrow>
   ings \<noteq> [] \<and> [] \<notin> set ings \<and> n = 12"
  by (auto simp add: recipesQuery_request_def searchRecipesByIngredients_request_def
      fetchRecipes_request_def searchIngredients_def split: if_splits)

lemma searchRecipes_request_body:
  "\<not> list_all isSeparator q \<Longrightarrow>
   searchRecipes_request base q =
     \<lparr> http_method = POST, url = base @ ''/api/recipes/search'',
       body = Some (SearchBody (parseIngredients q) 12) \<rparr>
   \<and> parseIngredients q \<noteq> [] \<and> [] \<notin> set (parseIngredients q)"
proof -
  assume a: "\<not> list_all isSeparator q"
  then have "\<not> list_all isWhiteSpace q" by (auto simp add: list_all_iff isSeparator_def)
  then have "trim q \<noteq> []" by (simp add: trim_empty_iff)
  then show ?thesis
    using a by (simp add: searchRecipes_request_def parseIngredients_empty_iff
        parseIngredients_no_empty_string)
qed

text \<open>
  C4. For every query with a character that is not white space, the search request of
  the client carries a non-empty ingredients array without empty strings and top_n = 12.
  RecipeGridWithBackend does not: the query that is one comma passes the trim guard,
  splits into two empty strings, which the filter removes, and the request is sent with
  an empty ingredients array. The API-backed RecipeGrid guards on the parsed list and
  sends no search request for that query.
\<close>

theorem comma_query_posts_no_ingredients:
  "\<not> list_all isWhiteSpace '',''
   \<and> searchRecipes_request base '','' =
       \<lparr> http_method = POST, url = base @ ''/api/recipes/search'',
         body = Some (SearchBody [] 12) \<rparr>
   \<and> recipesQuery_request '','' = fetchRecipes_request"
  by (simp add: searchRecipes_request_def parseIngredients_def split_re_def trim_def
      isSeparator_def isWhiteSpace_def recipesQuery_request_def searchIngredients_def)

section \<open>Facts about the requests\<close>

lemma isUnreserved_not_delimiter:
  "isUnreserved c \<Longrightarrow> c \<noteq> CHR ''/'' \<and> c \<noteq> CHR ''?'' \<and> c \<noteq> CHR ''#''"
proof -
  have "\<not> isUnreserved CHR ''/''" "\<not> isUnreserved CHR ''?''" "\<not> isUnreserved CHR ''#''"
    by (simp_all add: isUnreserved_def)
  then show "isUnreserved c \<Longrightarrow> c \<noteq> CHR ''/'' \<and> c \<noteq> CHR ''?'' \<and> c \<noteq> CHR ''#''"
    by metis
qed

lemma hexDigit_not_delimiter:
  "hexDigit n \<noteq> CHR ''/'' \<and> hexDigit n \<noteq> CHR ''?'' \<and> hexDigit n \<noteq> CHR ''#''"
proof -
  have "n mod 16 < length ''0123456789ABCDEF''" by simp
  then have "hexDigit n \<in> set ''0123456789ABCDEF''"
    unfolding hexDigit_def by (rule nth_mem)
  then show ?thesis by auto
qed

lemma encodeChar_segment:
  "list_all (\<lambda>c. c \<noteq> CHR ''/'' \<and> c \<noteq> CHR ''?'' \<and> c \<noteq> CHR ''#'') (encodeChar c)"
  by (simp add: encodeChar_def isUnreserved_not_delimiter hexDigit_not_delimiter)

lemma encodeChar_nonempty: "encodeChar c \<noteq> []"
  by (simp add: encodeChar_def)

lemma encodeURIComponent_segment: "s \<noteq> [] \<Longrightarrow> isSegment (encodeURIComponent s)"
proof -
  assume "s \<noteq> []"
  then obtain c cs where s: "s = c # cs" by (cases s) auto
  have "list_all (\<lambda>c. c \<noteq> CHR ''/'' \<and> c \<noteq> CHR ''?'' \<and> c \<noteq> CHR ''#'') (encodeURIComponent t)" for t
    by (induction t) (simp_all add: encodeURIComponent_def encodeChar_segment)
  moreover have "encodeURIComponent s \<noteq> []"
    by (simp add: s encodeURIComponent_def encodeChar_nonempty)
  ultimately show ?thesis by (simp add: isSegment_def)
qed

lemma backend_requests_listed:
  "listedEndpoint base (loadCategories_request base)"
  "listedEndpoint base (loadInitialRecipes_request base)"
  "listedEndpoint base (searchRecipes_request base q)"
  "loadRecipes_request base q sel = Some r \<Longrightarrow> listedEndpoint base r"
proof -
  show "listedEndpoint base (loadCategories_request base)"
    by (simp add: listedEndpoint_def loadCategories_request_def)
  show "listedEndpoint base (loadInitialRecipes_request base)"
    by (simp add: listedEndpoint_def loadInitialRecipes_request_def startsWith_prefix)
  show "listedEndpoint base (searchRecipes_request base q)"
    by (simp add: listedEndpoint_def searchRecipes_request_def startsWith_prefix)
  show "loadRecipes_request base q sel = Some r \<Longrightarrow> listedEndpoint base r"
  proof -
    assume a: "loadRecipes_request base q sel = Some r"
    show ?thesis
    proof (cases "sel = ''All'' \<or> sel = []")
      case True
      then have "r = \<lparr> http_method = GET, url = base @ ''/api/recipes/random?count=20'', body = None \<rparr>"
        using a by (auto simp add: loadRecipes_request_def split: if_splits)
      then show ?thesis by (simp add: listedEndpoint_def startsWith_prefix)
    next
      case False
      then have r: "r = \<lparr> http_method = GET,
          url = (base @ ''/api/recipes/by-category/'') @ encodeURIComponent sel, body = None \<rparr>"
        using a by (auto simp add: loadRecipes_request_def split: if_splits)
      have seg: "isSegment (encodeURIComponent sel)"
        using False by (simp add: encodeURIComponent_segment)
      have "startsWith (url r) (base @ ''/api/recipes/by-category/'')"
        unfolding r by (simp add: startsWith_prefix del: append_assoc)
      moreover have "drop (length (base @ ''/api/recipes/by-category/'')) (url r) = encodeURIComponent sel"
        unfolding r by (simp del: append_assoc)
      moreover have "http_method r = GET" unfolding r by simp
      ultimately show ?thesis using seg by (simp add: listedEndpoint_def)
    qed
  qed
qed

lemma shorter_not_append: "length s < length t \<Longrightarrow> s \<noteq> base @ t"
  by auto

lemma shorter_not_startsWith: "length s < length t \<Longrightarrow> \<not> startsWith s (base @ t)"
  by (auto simp add: startsWith_prefix dest: prefix_length_le)

text \<open>
  C5. Every request of the presentation layer goes to one of the five listed endpoints.
  Every request of RecipeGridWithBackend does. The API-backed RecipeGrid does not: with no
  ingredient to search for, its recipes query sends GET /api/recipes, which is none of
  the five.
\<close>

theorem fetchRecipes_not_listed:
  "recipesQuery_request [] = \<lparr> http_method = GET, url = ''/api/recipes'', body = None \<rparr>
   \<and> \<not> listedEndpoint base (recipesQuery_request [])"
proof -
  have q: "recipesQuery_request [] = \<lparr> http_method = GET, url = ''/api/recipes'', body = None \<rparr>"
    by (simp add: recipesQuery_request_def searchIngredients_def trim_def fetchRecipes_request_def)
  have "\<not> listedEndpoint base \<lparr> http_method = GET, url = ''/api/recipes'', body = None \<rparr>"
    by (simp add: listedEndpoint_def shorter_not_append shorter_not_startsWith)
  with q show ?thesis by simp
qed

section \<open>Facts about the score\<close>

lemma weight_entry:
  "distinct (map fst v) \<Longrightarrow> (i, w) \<in> set v \<Longrightarrow> weight v i = w"
  by (simp add: weight_def)

lemma weight_absent: "i \<notin> fst ` set v \<Longrightarrow> weight v i = 0"
proof -
  assume "i \<notin> fst ` set v"
  then have "map_of v i = None" by (simp add: map_of_eq_None_iff)
  then show ?thesis by (simp add: weight_def)
qed

lemma weight_nonneg: "list_all (\<lambda>(i, w). 0 \<le> w) v \<Longrightarrow> 0 \<le> weight v i"
proof (cases "map_of v i")
  case None
  then show ?thesis by (simp add: weight_def)
next
  case (Some w)
  assume a: "list_all (\<lambda>(i, w). 0 \<le> w) v"
  from Some have "(i, w) \<in> set v" by (rule map_of_SomeD)
  with a have "0 \<le> w" by (auto simp add: list_all_iff)
  with Some show ?thesis by (simp add: weight_def)
qed

lemma normSq_as_weights:
  assumes "distinct (map fst v)"
  shows "normSq v = (\<Sum>i\<in>fst ` set v. weight v i * weight v i)"
proof -
  have "normSq v = sum_list (map (\<lambda>p. weight v (fst p) * weight v (fst p)) v)"
    unfolding normSq_def
    by (rule arg_cong [where f = sum_list], rule map_cong [OF refl])
       (use assms in \<open>auto simp add: weight_entry\<close>)
  also have "\<dots> = sum_list (map (\<lambda>i. weight v i * weight v i) (map fst v))"
    by (simp add: comp_def)
  also have "\<dots> = (\<Sum>i\<in>set (map fst v). weight v i * weight v i)"
    using assms by (rule sum_list_distinct_conv_sum_set)
  finally show ?thesis by simp
qed

lemma query_weights_le_normSq:
  assumes "distinct (map fst q)" and "distinct (map fst v)"
  shows "sum_list (map (\<lambda>(i, w). weight v i * weight v i) q) \<le> normSq v"
proof -
  let ?f = "\<lambda>i. weight v i * weight v i"
  have "sum_list (map (\<lambda>(i, w). ?f i) q) = sum_list (map ?f (map fst q))"
    by (simp add: comp_def case_prod_unfold)
  also have "\<dots> = sum ?f (set (map fst q))"
    using assms(1) by (rule sum_list_distinct_conv_sum_set)
  also have "\<dots> = sum ?f (fst ` set q \<inter> fst ` set v)"
    by (rule sum.mono_neutral_right) (auto simp add: weight_absent)
  also have "\<dots> \<le> sum ?f (fst ` set v)"
    by (rule sum_mono2) auto
  also have "\<dots> = normSq v"
    using assms(2) by (simp add: normSq_as_weights)
  finally show ?thesis .
qed

lemma dot_nonneg:
  assumes "list_all (\<lambda>(i, w). 0 \<le> w) q" and "list_all (\<lambda>(i, w). 0 \<le> w) v"
  shows "0 \<le> dot q v"
  unfolding dot_def
  by (rule sum_list_nonneg)
     (use assms in \<open>auto simp add: list_all_iff weight_nonneg\<close>)

lemma dot_le_norms:
  assumes "distinct (map fst q)" and "distinct (map fst v)"
  shows "2 * dot q v \<le> normSq q + normSq v"
proof -
  have amgm: "2 * (w * x) \<le> w * w + x * x" for w x :: real
    using sum_squares_bound [of w x] by (simp add: power2_eq_square)
  have "2 * dot q v = sum_list (map (\<lambda>(i, w). 2 * (w * weight v i)) q)"
    by (simp add: dot_def sum_list_const_mult case_prod_unfold)
  also have "\<dots> \<le> sum_list (map (\<lambda>(i, w). w * w + weight v i * weight v i) q)"
    by (rule sum_list_mono) (auto simp add: amgm)
  also have "\<dots> = normSq q + sum_list (map (\<lambda>(i, w). weight v i * weight v i) q)"
    by (simp add: normSq_def sum_list_addf case_prod_unfold)
  also have "\<dots> \<le> normSq q + normSq v"
    using query_weights_le_normSq [OF assms] by simp
  finally show ?thesis .
qed

lemma dot_unit_interval:
  assumes "wellFormedVector q" and "wellFormedVector v"
  shows "0 \<le> dot q v \<and> dot q v \<le> 1"
proof
  show "0 \<le> dot q v"
    using assms by (simp add: wellFormedVector_def dot_nonneg)
next
  have "2 * dot q v \<le> normSq q + normSq v"
    using assms by (simp add: wellFormedVector_def dot_le_norms)
  moreover have "normSq q \<le> 1" "normSq v \<le> 1"
    using assms by (auto simp add: wellFormedVector_def)
  ultimately show "dot q v \<le> 1" by linarith
qed

section \<open>Facts about the ranking order\<close>

lemma rankedBefore_total: "rankedBefore a b \<or> rankedBefore b a"
  unfolding rankedBefore_def by (auto simp add: not_less)

lemma rankedBefore_trans: "rankedBefore a b \<Longrightarrow> rankedBefore b c \<Longrightarrow> rankedBefore a c"
  unfolding rankedBefore_def by (elim disjE conjE) simp_all

lemma set_insertRanked: "set (insertRanked x ys) = insert x (set ys)"
  by (induction ys) auto

lemma mset_insertRanked: "mset (insertRanked x ys) = add_mset x (mset ys)"
  by (induction ys) auto

lemma sorted_insertRanked:
  "sorted_wrt rankedBefore ys \<Longrightarrow> sorted_wrt rankedBefore (insertRanked x ys)"
proof (induction ys)
  case Nil
  then show ?case by simp
next
  case (Cons y ys)
  show ?case
  proof (cases "rankedBefore x y")
    case True
    then have "\<forall>z\<in>set ys. rankedBefore x z"
      using Cons.prems by (auto intro: rankedBefore_trans)
    with True Cons.prems show ?thesis by simp
  next
    case False
    then have "rankedBefore y x" using rankedBefore_total [of x y] by simp
    with False Cons show ?thesis by (simp add: set_insertRanked)
  qed
qed

lemma sorted_sortRanked: "sorted_wrt rankedBefore (sortRanked xs)"
  unfolding sortRanked_def by (induction xs) (simp_all add: sorted_insertRanked)

lemma mset_sortRanked: "mset (sortRanked xs) = mset xs"
  unfolding sortRanked_def by (induction xs) (simp_all add: mset_insertRanked)

lemma set_sortRanked: "set (sortRanked xs) = set xs"
proof -
  have "set_mset (mset (sortRanked xs)) = set_mset (mset xs)"
    by (simp only: mset_sortRanked)
  then show ?thesis by simp
qed

lemma length_sortRanked: "length (sortRanked xs) = length xs"
proof -
  have "size (mset (sortRanked xs)) = size (mset xs)"
    by (simp only: mset_sortRanked)
  then show ?thesis by simp
qed

lemma ratingOf_entry:
  "distinct (map (\<lambda>e. rid (entry_recipe e)) idx) \<Longrightarrow> e \<in> set idx \<Longrightarrow>
   ratingOf idx (rid (entry_recipe e)) = rating (entry_recipe e)"
proof (induction idx)
  case Nil
  then show ?case by simp
next
  case (Cons x idx)
  then show ?case by (auto simp add: ratingOf_def image_iff)
qed

lemma rankEntries_Inr:
  "rankEntries q idx topN = Inr es \<Longrightarrow>
   0 < topN \<and> sorted_wrt rankedBefore es \<and> set es \<subseteq> set (scoreAll q idx)"
proof -
  assume a: "rankEntries q idx topN = Inr es"
  then have pos: "0 < topN" by (auto simp add: rankEntries_def split: if_splits)
  from a pos have "es = [] \<or> es = take (clampTopN topN idx) (sortRanked (scoreAll q idx))"
    by (auto simp add: rankEntries_def split: if_splits)
  then show ?thesis
  proof
    assume "es = []"
    with pos show ?thesis by simp
  next
    assume e: "es = take (clampTopN topN idx) (sortRanked (scoreAll q idx))"
    have "sorted_wrt rankedBefore es"
      unfolding e using sorted_sortRanked by (rule sorted_wrt_take)
    moreover have "set es \<subseteq> set (scoreAll q idx)"
      unfolding e using set_take_subset [of "clampTopN topN idx" "sortRanked (scoreAll q idx)"]
      by (simp add: set_sortRanked)
    ultimately show ?thesis using pos by simp
  qed
qed

lemma rankEntries_Inl: "rankEntries q idx topN = Inl e \<Longrightarrow> topN \<le> 0 \<and> e = InvalidArgument"
  by (auto simp add: rankEntries_def split: if_splits)

section \<open>The Ranker's result is sorted and its scores are in the unit interval\<close>

text \<open>
  C2. For every query vector, index and topN, rank fails only for topN \<le> 0, and
  otherwise returns a sequence sorted by score descending, then rating descending, then
  id ascending, in which every score lies in [0,1]. The query vector and the vectors of
  the index are as the data model has them: non-negative weights, one for each index,
  of norm 1 or all zero; the ids of the index are distinct.
\<close>

theorem rank_sorted_and_bounded:
  assumes "wellFormedVector q" and "wellFormedIndex idx"
  shows "case rank q idx topN of
           Inl e \<Rightarrow> topN \<le> 0 \<and> e = InvalidArgument
         | Inr result \<Rightarrow>
             0 < topN
             \<and> sorted_wrt (\<lambda>(i, s) (j, t).
                   s > t \<or> (s = t \<and> (ratingOf idx i > ratingOf idx j \<or>
                     (ratingOf idx i = ratingOf idx j \<and> i \<le> j)))) result
             \<and> list_all (\<lambda>(i, s). 0 \<le> s \<and> s \<le> 1) result"
proof (cases "rankEntries q idx topN")
  case (Inl e)
  then show ?thesis
    using rankEntries_Inl [OF Inl] by (simp add: rank_def)
next
  case (Inr es)
  let ?proj = "\<lambda>(e, s). (rid (entry_recipe e), s :: real)"
  let ?P = "\<lambda>(i, s) (j, t).
      s > t \<or> (s = t \<and> (ratingOf idx i > ratingOf idx j \<or>
        (ratingOf idx i = ratingOf idx j \<and> i \<le> (j :: string))))"
  from rankEntries_Inr [OF Inr]
  have pos: "0 < topN" and srt: "sorted_wrt rankedBefore es"
    and sub: "set es \<subseteq> set (scoreAll q idx)"
    by simp_all
  have dist: "distinct (map (\<lambda>e. rid (entry_recipe e)) idx)"
    using assms(2) by (simp add: wellFormedIndex_def)
  have mem: "fst x \<in> set idx \<and> snd x = dot q (entry_vector (fst x))" if "x \<in> set es" for x
    using that sub by (auto simp add: scoreAll_def)
  have step: "?P (?proj x) (?proj y)" if "x \<in> set es" "y \<in> set es" "rankedBefore x y" for x y
  proof -
    have "ratingOf idx (rid (entry_recipe (fst x))) = rating (entry_recipe (fst x))"
      using dist mem [OF that(1)] by (simp add: ratingOf_entry)
    moreover have "ratingOf idx (rid (entry_recipe (fst y))) = rating (entry_recipe (fst y))"
      using dist mem [OF that(2)] by (simp add: ratingOf_entry)
    ultimately show ?thesis
      using that(3) by (simp add: rankedBefore_def case_prod_unfold)
  qed
  have "sorted_wrt (\<lambda>x y. ?P (?proj x) (?proj y)) es"
    using step srt by (rule sorted_wrt_mono_rel)
  then have sorted: "sorted_wrt ?P (map ?proj es)"
    by (simp only: sorted_wrt_map)
  have bound: "list_all (\<lambda>(i, s). 0 \<le> s \<and> s \<le> 1) (map ?proj es)"
  proof -
    have "0 \<le> snd x \<and> snd x \<le> 1" if "x \<in> set es" for x
    proof -
      from mem [OF that] have e: "fst x \<in> set idx" and s: "snd x = dot q (entry_vector (fst x))"
        by simp_all
      from e assms(2) have "wellFormedVector (entry_vector (fst x))"
        by (simp add: wellFormedIndex_def list_all_iff)
      with assms(1) show ?thesis
        unfolding s by (rule dot_unit_interval)
    qed
    then show ?thesis by (simp add: list_all_iff case_prod_unfold)
  qed
  have "rank q idx topN = Inr (map ?proj es)"
    by (simp add: rank_def Inr)
  with pos sorted bound show ?thesis by simp
qed

theorem rank_sorted_and_bounded_witness:
  "wellFormedVector exampleQuery \<and> wellFormedIndex exampleIndex
   \<and> rank exampleQuery exampleIndex 3 = Inr [(''b'', 4 / 5), (''a'', 3 / 5), (''d'', 3 / 5)]"
proof -
  have wfq: "wellFormedVector exampleQuery"
    by (simp add: wellFormedVector_def exampleQuery_def normSq_def)
  have wfi: "wellFormedIndex exampleIndex"
    by (simp add: wellFormedIndex_def exampleIndex_def wellFormedVector_def normSq_def
        convertToRecipeCardFormat_def exampleRecipe_def)
  have r: "rank exampleQuery exampleIndex 3 = Inr [(''b'', 4 / 5), (''a'', 3 / 5), (''d'', 3 / 5)]"
    by (simp add: rank_def rankEntries_def scoreAll_def dot_def weight_def exampleQuery_def
        exampleIndex_def clampTopN_def sortRanked_def rankedBefore_def
        convertToRecipeCardFormat_def exampleRecipe_def)
  show ?thesis
    using rank_sorted_and_bounded [OF wfq wfi, of 3] wfq wfi r by simp
qed

section \<open>The boundaries of top_n\<close>

lemma search_nonpositive:
  "top_n \<le> 0 \<Longrightarrow> search vectorize idx ings top_n = Inl InvalidQuery"
  by (simp add: search_def rankEntries_def)

lemma search_blank: "list_all (\<lambda>ing. trim ing = []) ings \<Longrightarrow>
   search vectorize idx ings top_n = Inl InvalidQuery"
  by (simp add: search_def)

lemma rankEntries_beyond_corpus:
  assumes "int (length idx) < topN"
  shows "rankEntries q idx topN =
           Inr (if list_all (\<lambda>(e, s). s = 0) (scoreAll q idx) then []
                else sortRanked (scoreAll q idx))"
proof -
  have pos: "0 < topN" using assms by simp
  have "clampTopN topN idx = length idx"
    using assms by (simp add: clampTopN_def)
  then have "take (clampTopN topN idx) (sortRanked (scoreAll q idx)) = sortRanked (scoreAll q idx)"
    by (simp add: length_sortRanked scoreAll_def)
  with pos show ?thesis by (simp add: rankEntries_def)
qed

lemma search_beyond_corpus:
  assumes "\<not> list_all (\<lambda>ing. trim ing = []) ings" and "int (length idx) < top_n"
  shows "\<exists>es. search vectorize idx ings top_n =
                Inr (map (\<lambda>(e, s). (entry_recipe e)\<lparr>similarityScore := Some s\<rparr>) es)
              \<and> (if list_all (\<lambda>e. dot (vectorize ings) (entry_vector e) = 0) idx
                 then es = []
                 else mset es = mset (scoreAll (vectorize ings) idx)
                      \<and> length es = length idx
                      \<and> sorted_wrt rankedBefore es)"
proof -
  let ?q = "vectorize ings"
  let ?es = "if list_all (\<lambda>(e, s). s = 0) (scoreAll ?q idx) then []
             else sortRanked (scoreAll ?q idx)"
  have z: "list_all (\<lambda>(e, s). s = 0) (scoreAll ?q idx)
           \<longleftrightarrow> list_all (\<lambda>e. dot ?q (entry_vector e) = 0) idx"
    by (simp add: scoreAll_def list_all_iff)
  have s: "search vectorize idx ings top_n =
      Inr (map (\<lambda>(e, s). (entry_recipe e)\<lparr>similarityScore := Some s\<rparr>) ?es)"
    using assms(1) by (simp add: search_def rankEntries_beyond_corpus [OF assms(2)])
  have p: "if list_all (\<lambda>e. dot ?q (entry_vector e) = 0) idx then ?es = []
        else mset ?es = mset (scoreAll ?q idx) \<and> length ?es = length idx
             \<and> sorted_wrt rankedBefore ?es"
    unfolding z [symmetric]
    by (simp add: mset_sortRanked length_sortRanked sorted_sortRanked) (simp add: scoreAll_def)
  from s p have "search vectorize idx ings top_n =
        Inr (map (\<lambda>(e, s). (entry_recipe e)\<lparr>similarityScore := Some s\<rparr>) ?es)
      \<and> (if list_all (\<lambda>e. dot (vectorize ings) (entry_vector e) = 0) idx
         then ?es = []
         else mset ?es = mset (scoreAll (vectorize ings) idx)
              \<and> length ?es = length idx
              \<and> sorted_wrt rankedBefore ?es)"
    by (rule conjI)
  then show ?thesis by (rule exI)
qed

text \<open>
  C6, as the engine of the specification has it. For every search request, a top_n
  of zero or negative fails with InvalidQuery. With top_n greater than the corpus size,
  a request whose ingredients are all blank (or that has none) fails with InvalidQuery;
  every other request is not an error, and returns the whole corpus, ranked (a sorted
  permutation of all scored entries), unless every recipe scores 0, when it returns the
  empty list.
\<close>

theorem search_top_n_boundaries:
  "(top_n \<le> 0 \<longrightarrow> search vectorize idx ings top_n = Inl InvalidQuery)
   \<and> (int (length idx) < top_n \<longrightarrow>
        (if list_all (\<lambda>ing. trim ing = []) ings
         then search vectorize idx ings top_n = Inl InvalidQuery
         else (\<exists>es. search vectorize idx ings top_n =
                      Inr (map (\<lambda>(e, s). (entry_recipe e)\<lparr>similarityScore := Some s\<rparr>) es)
                    \<and> (if list_all (\<lambda>e. dot (vectorize ings) (entry_vector e) = 0) idx
                       then es = []
                       else mset es = mset (scoreAll (vectorize ings) idx)
                            \<and> length es = length idx
                            \<and> sorted_wrt rankedBefore es))))"
proof (intro conjI impI)
  assume "top_n \<le> 0"
  then show "search vectorize idx ings top_n = Inl InvalidQuery"
    by (rule search_nonpositive)
next
  assume big: "int (length idx) < top_n"
  show "if list_all (\<lambda>ing. trim ing = []) ings
         then search vectorize idx ings top_n = Inl InvalidQuery
         else (\<exists>es. search vectorize idx ings top_n =
                      Inr (map (\<lambda>(e, s). (entry_recipe e)\<lparr>similarityScore := Some s\<rparr>) es)
                    \<and> (if list_all (\<lambda>e. dot (vectorize ings) (entry_vector e) = 0) idx
                       then es = []
                       else mset es = mset (scoreAll (vectorize ings) idx)
                            \<and> length es = length idx
                            \<and> sorted_wrt rankedBefore es))"
  proof (cases "list_all (\<lambda>ing. trim ing = []) ings")
    case True
    then show ?thesis by (simp only: if_True search_blank)
  next
    case False
    from search_beyond_corpus [OF False big, of vectorize] False
    show ?thesis by (simp only: if_False)
  qed
qed

theorem search_top_n_boundaries_witness:
  "search exampleVectorize exampleIndex [''rice'', ''egg''] 0 = Inl InvalidQuery
   \<and> search exampleVectorize exampleIndex [] 0 = Inl InvalidQuery
   \<and> int (length exampleIndex) < 10
   \<and> search exampleVectorize exampleIndex [''  ''] 10 = Inl InvalidQuery
   \<and> map_sum id (map (\<lambda>r. (rid r, similarityScore r)))
        (search exampleVectorize exampleIndex [''rice'', ''egg''] 10) =
       Inr [(''b'', Some (4 / 5)), (''a'', Some (3 / 5)), (''d'', Some (3 / 5)), (''c'', Some 0)]"
proof -
  have h: "\<not> list_all (\<lambda>ing. trim ing = []) [''rice'', ''egg'']"
    by (simp add: trim_def isWhiteSpace_def)
  have b: "list_all (\<lambda>ing. trim ing = []) [''  '']"
    by (simp add: trim_def isWhiteSpace_def)
  have big: "int (length exampleIndex) < 10"
    by (simp add: exampleIndex_def)
  have r: "map_sum id (map (\<lambda>r. (rid r, similarityScore r)))
        (search exampleVectorize exampleIndex [''rice'', ''egg''] 10) =
       Inr [(''b'', Some (4 / 5)), (''a'', Some (3 / 5)), (''d'', Some (3 / 5)), (''c'', Some 0)]"
    using h
    by (simp add: search_def exampleVectorize_def rankEntries_def scoreAll_def dot_def weight_def
        exampleQuery_def exampleIndex_def clampTopN_def sortRanked_def rankedBefore_def
        convertToRecipeCardFormat_def exampleRecipe_def)
  from search_top_n_boundaries [of 0 exampleVectorize exampleIndex "[''rice'', ''egg'']"]
  have z: "search exampleVectorize exampleIndex [''rice'', ''egg''] 0 = Inl InvalidQuery"
    by simp
  from search_top_n_boundaries [of 0 exampleVectorize exampleIndex "[]"]
  have z': "search exampleVectorize exampleIndex [] 0 = Inl InvalidQuery"
    by simp
  from search_top_n_boundaries [of 10 exampleVectorize exampleIndex "[''  '']",
      THEN conjunct2, THEN mp, OF big] b
  have bl: "search exampleVectorize exampleIndex [''  ''] 10 = Inl InvalidQuery"
    by (simp only: if_True)
  note t10 = search_top_n_boundaries [of 10 exampleVectorize exampleIndex "[''rice'', ''egg'']",
      THEN conjunct2, THEN mp, OF big]
  from z z' big bl r t10 show ?thesis by (intro conjI)
qed

text \<open>
  C6 as it is written fails on the engine of the specification, for two kinds of
  request with top_n greater than the corpus size: a query whose tokens are all outside
  the Vocabulary returns the empty list and not the four recipes of the corpus, and a
  request without ingredients is an error.
\<close>

theorem search_beyond_corpus_counterexample:
  "length exampleIndex = 4
   \<and> search vectorizeUnknown exampleIndex [''saffron''] 10 = Inr []
   \<and> search exampleVectorize exampleIndex [] 10 = Inl InvalidQuery"
  by (simp add: search_def vectorizeUnknown_def rankEntries_def scoreAll_def dot_def
      exampleIndex_def trim_def isWhiteSpace_def)

end
